theory Spec2Isabelle
  imports Complex_Main "HOL-Library.Log_Nat" "HOL-Library.Sublist"
begin

section \<open>JavaScript numbers\<close>

text \<open>
  A JavaScript number is an IEEE 754 binary64 value. A finite double is modelled by the
  rational number it denotes, and every operation by the exact operation followed by
  rounding to the nearest double, a tie going to the even significand. A result beyond
  the largest double is \<open>Infinity\<close> or \<open>-Infinity\<close>, modelled by \<open>None\<close>; negative zero
  is not told apart from zero. (\<open>NaN\<close> does not arise: the request body is JSON, and the
  operations below yield it from no finite operand.)
\<close>

definition round_half_even :: "rat \<Rightarrow> int" where
  "round_half_even y =
     (let f = \<lfloor>y\<rfloor>; d = y - of_int f
      in if d < 1 / 2 then f else if 1 / 2 < d then f + 1 else if even f then f else f + 1)"

definition pow2 :: "int \<Rightarrow> rat" where
  "pow2 k = (if 0 \<le> k then 2 ^ nat k else 1 / 2 ^ nat (- k))"

text \<open>
  The binary exponent of \<open>x \<noteq> 0\<close> is the \<open>e\<close> with \<open>2\<^sup>e \<le> \<bar>x\<bar> < 2\<^sup>e\<^sup>+\<^sup>1\<close>; it is read off
  the bit lengths of numerator and denominator.
\<close>

definition binary_exponent :: "rat \<Rightarrow> int" where
  "binary_exponent x =
     (let (a, b) = quotient_of x; k = bitlen \<bar>a\<bar> - bitlen b
      in if pow2 k \<le> \<bar>x\<bar> then k else k - 1)"

text \<open>
  Doubles have a significand of 53 bits: near \<open>x\<close> they are the multiples of
  \<open>2\<^sup>e\<^sup>-\<^sup>5\<^sup>2\<close>, where \<open>e\<close> is the binary exponent of \<open>x\<close>, and the multiples of \<open>2\<^sup>-\<^sup>1\<^sup>0\<^sup>7\<^sup>4\<close>
  in the subnormal range below \<open>2\<^sup>-\<^sup>1\<^sup>0\<^sup>2\<^sup>2\<close>.
\<close>

definition quantum :: "rat \<Rightarrow> rat" where
  "quantum x = pow2 (max (binary_exponent x) (- 1022) - 52)"

definition nearest_double :: "rat \<Rightarrow> rat" where
  "nearest_double x = of_int (round_half_even (x / quantum x)) * quantum x"

text \<open>The rounded value overflows when it reaches \<open>2\<^sup>1\<^sup>0\<^sup>2\<^sup>4\<close>.\<close>

definition to_double :: "rat \<Rightarrow> rat option" where
  "to_double x =
     (let v = nearest_double x
      in if v \<noteq> 0 \<and> 1024 \<le> binary_exponent v then None else Some v)"

text \<open>
  \<open>Math.round\<close> yields the integer nearest to a finite double, a tie going up; the
  result is exact.
\<close>

definition Math_round :: "rat \<Rightarrow> int" where
  "Math_round x = \<lfloor>x + 1 / 2\<rfloor>"

section \<open>Instalment arithmetic of the checkout-session route\<close>

text \<open>
  The checkout-session route reads \<open>penaltyAmount\<close> from the request body and computes
  \<^verbatim>\<open>const monthlyAmountInPence = Math.round((penaltyAmount / 3) * 100);\<close>
  The argument is the number as the JSON body writes it; parsing the body makes it a
  double, the division and the multiplication each round their result, and
  \<open>Math.round\<close> of \<open>Infinity\<close> is \<open>Infinity\<close>: the result is \<open>None\<close> when the unit
  amount is not finite.
\<close>

definition monthlyAmountInPence :: "rat \<Rightarrow> int option" where
  "monthlyAmountInPence penaltyAmount =
     Option.bind (to_double penaltyAmount) (\<lambda>a.
     Option.bind (to_double (a / 3)) (\<lambda>t.
     map_option Math_round (to_double (t * 100))))"

text \<open>
  The subscription schedule has one phase with one price item and
  \<^verbatim>\<open>iterations: 3\<close>: the Processor bills the unit amount of that price once
  per iteration.
\<close>

definition schedule_iterations :: nat where
  "schedule_iterations = 3"

definition phase_charges :: "int \<Rightarrow> nat \<Rightarrow> int list" where
  "phase_charges unit_amount iterations = replicate iterations unit_amount"

definition instalments :: "rat \<Rightarrow> int list option" where
  "instalments penaltyAmount =
     map_option (\<lambda>unit_amount. phase_charges unit_amount schedule_iterations)
       (monthlyAmountInPence penaltyAmount)"

section \<open>Data\<close>

text \<open>
  The customer row, with the fields the routes read and write (\<open>id\<close>, \<open>email\<close>,
  \<open>pcnNumber\<close>, \<open>vehicleRegistration\<close>, \<open>stripeCustomerId\<close>, \<open>stripeSubscriptionId\<close>).
  The creation time stamp is never read by a route and is left out.
\<close>

record customer =
  customer_id :: string
  email :: string
  pcnNumber :: string
  vehicleRegistration :: string
  stripeCustomerId :: "string option"
  stripeSubscriptionId :: "string option"

text \<open>
  Whatever is thrown inside a route is caught by its \<^verbatim>\<open>catch (error: any)\<close> and
  answered with status 400. An error of the Processor carries the Processor's message.
\<close>

datatype error =
    ValidationError
  | ConflictError
  | InvariantViolation
  | NotFoundError
  | StripeError string

type_synonym metadata = "(string \<times> string) list"

text \<open>
  The calls the routes make on the Stripe client, with the arguments that vary:
  \<^item> \<open>customers.retrieve(id)\<close>;
  \<^item> \<open>customers.create({email, metadata})\<close>;
  \<^item> \<open>products.create({name, description})\<close>;
  \<^item> \<open>prices.create({unit_amount, product})\<close>, always in gbp and monthly, and the
    same call with a \<open>unit_amount\<close> that is not finite;
  \<^item> \<open>subscriptions.create({customer, items: [{price}], metadata, cancel_at})\<close>;
  \<^item> \<open>subscriptionSchedules.create({customer, metadata, phases: [{items: [{price}], iterations}]})\<close>;
  \<^item> \<open>checkout.sessions.create({customer, subscription, success_url, cancel_url, metadata})\<close>.
\<close>

datatype stripe_call =
    CustomersRetrieve string
  | CustomersCreate string metadata
  | ProductsCreate string string
  | PricesCreate int string
  | PricesCreateNonFinite string
  | SubscriptionsCreate string string metadata int
  | SubscriptionSchedulesCreate string metadata string nat
  | CheckoutSessionsCreate string "string option" string string metadata

text \<open>
  What the routes read of an object the Processor returns: its \<open>id\<close>, and of a
  subscription \<open>latest_invoice?.payment_intent?.client_secret\<close>, of a schedule its
  \<open>subscription\<close>, of a checkout session its \<open>url\<close>.
\<close>

record stripe_object =
  obj_id :: string
  obj_client_secret :: "string option"
  obj_subscription :: "string option"
  obj_url :: "string option"

text \<open>
  The trace of a run: the Processor calls and the Registry attachments, in the order
  the route issues them, each with its outcome.
\<close>

datatype event =
    StripeCall stripe_call "string + stripe_object"
  | UpdateCustomerStripeInfo string string "string option" "error + customer"

record process_env =
  CUSTOM_DOMAIN_URL :: "string option"
  WEBSITE_HOSTNAME :: "string option"
  REPL_SLUG :: "string option"
  REPL_OWNER :: "string option"
  WEBSITE_URL :: "string option"

text \<open>
  What lies outside the routes: the Processor behind the Stripe client (any function of
  the calls made so far and the call at hand, answering with an error message or an
  object), the identifiers the Registry draws, the clock, the environment, and the
  runtime's rendering of numbers (\<open>toString\<close>, \<open>toFixed(2)\<close>). The rendering is any
  function of the exact value of the expression the route writes (\<open>penaltyAmount\<close>,
  \<open>penaltyAmount / 3\<close>): how the runtime rounds that value to a double and prints it
  stays inside the function.
\<close>

record system =
  stripe :: "event list \<Rightarrow> stripe_call \<Rightarrow> string + stripe_object"
  randomUUID :: "nat \<Rightarrow> string"
  Date_now :: int
  env :: process_env
  Number_toString :: "rat \<Rightarrow> string"
  Number_toFixed2 :: "rat \<Rightarrow> string"

record world =
  customers :: "customer list"
  trace :: "event list"

type_synonym 'a io = "world \<Rightarrow> (error + 'a) \<times> world"

definition resolve :: "'a \<Rightarrow> 'a io" where
  "resolve x w = (Inr x, w)"

definition reject :: "error \<Rightarrow> 'a io" where
  "reject e w = (Inl e, w)"

text \<open>\<open>await m f\<close>: run \<open>m\<close>; a rejection leaves the route, a value goes on to \<open>f\<close>.\<close>

definition await :: "'a io \<Rightarrow> ('a \<Rightarrow> 'b io) \<Rightarrow> 'b io" where
  "await m f w = (case m w of (Inl e, w') \<Rightarrow> (Inl e, w') | (Inr x, w') \<Rightarrow> f x w')"

section \<open>Customer Registry\<close>

text \<open>
  Modelled from the spec: the storage module (\<open>./storage\<close>) is not among the sources.
  \<open>findByEmail(email) -> Customer | absent\<close>: pure lookup, no side effects; lookups are
  keyed on the email, compared exactly.
\<close>

definition lookup :: "string \<Rightarrow> customer list \<Rightarrow> customer option" where
  "lookup e db = find (\<lambda>c. email c = e) db"

definition getCustomerByEmail :: "string \<Rightarrow> customer option io" where
  "getCustomerByEmail e w = (Inr (lookup e (customers w)), w)"

text \<open>
  Modelled from the spec: \<open>create(email, pcnNumber, vehicleRegistration) -> Customer\<close>
  fails with \<open>ConflictError\<close> if a create for the same email already succeeded; the new
  record gets a fresh identifier and no processor identifiers.
\<close>

definition createCustomer :: "system \<Rightarrow> string \<Rightarrow> string \<Rightarrow> string \<Rightarrow> customer io" where
  "createCustomer sys e p v w =
     (if lookup e (customers w) \<noteq> None then (Inl ConflictError, w)
      else let c = \<lparr>customer_id = randomUUID sys (length (customers w)), email = e,
                     pcnNumber = p, vehicleRegistration = v,
                     stripeCustomerId = None, stripeSubscriptionId = None\<rparr>
           in (Inr c, w\<lparr>customers := customers w @ [c]\<rparr>))"

definition contradicts :: "string \<Rightarrow> customer \<Rightarrow> bool" where
  "contradicts pid c = (case stripeCustomerId c of None \<Rightarrow> False | Some p \<Rightarrow> p \<noteq> pid)"

definition attach :: "string \<Rightarrow> string option \<Rightarrow> customer \<Rightarrow> customer" where
  "attach pid sub c =
     c\<lparr>stripeCustomerId := Some pid,
       stripeSubscriptionId := (case sub of None \<Rightarrow> stripeSubscriptionId c | Some s \<Rightarrow> Some s)\<rparr>"

text \<open>
  Modelled from the spec:
  \<open>attachProcessorIds(customerId, processorCustomerId, processorSubscriptionId?) -> Customer\<close>
  is idempotent, and a \<open>processorCustomerId\<close> different from the one already stored is
  rejected (\<open>InvariantViolation\<close>) rather than overwritten. An unknown customer
  identifier is an error. The update reaches the rows with that identifier.
\<close>

definition attachProcessorIds ::
  "string \<Rightarrow> string \<Rightarrow> string option \<Rightarrow> customer list \<Rightarrow> error + customer \<times> customer list" where
  "attachProcessorIds cid pid sub db =
     (case filter (\<lambda>c. customer_id c = cid) db of
        [] \<Rightarrow> Inl NotFoundError
      | c # cs \<Rightarrow>
          if list_ex (contradicts pid) (c # cs) then Inl InvariantViolation
          else Inr (attach pid sub c,
                    map (\<lambda>x. if customer_id x = cid then attach pid sub x else x) db))"

text \<open>
  \<open>storage.updateCustomerStripeInfo(id, stripeCustomerId, stripeSubscriptionId?)\<close>, the
  name the routes call the attachment by.
\<close>

definition updateCustomerStripeInfo :: "string \<Rightarrow> string \<Rightarrow> string option \<Rightarrow> customer io" where
  "updateCustomerStripeInfo cid pid sub w =
     (case attachProcessorIds cid pid sub (customers w) of
        Inl e \<Rightarrow> (Inl e, w\<lparr>trace := trace w @ [UpdateCustomerStripeInfo cid pid sub (Inl e)]\<rparr>)
      | Inr (c, db) \<Rightarrow>
          (Inr c, w\<lparr>customers := db,
                     trace := trace w @ [UpdateCustomerStripeInfo cid pid sub (Inr c)]\<rparr>))"

section \<open>Processor Gateway\<close>

definition stripe_request :: "system \<Rightarrow> stripe_call \<Rightarrow> stripe_object io" where
  "stripe_request sys c w =
     (let r = stripe sys (trace w) c; w' = w\<lparr>trace := trace w @ [StripeCall c r]\<rparr>
      in case r of Inl message \<Rightarrow> (Inl (StripeError message), w') | Inr obj \<Rightarrow> (Inr obj, w'))"

section \<open>Requests and responses\<close>

record request_body =
  body_email :: string
  body_pcnNumber :: string
  body_vehicleRegistration :: string
  body_penaltyAmount :: rat

datatype response_body =
    SubscriptionResponse (clientSecret: "string option") (subscriptionId: string) (customerId: string)
  | CheckoutResponse (sessionId: string) (url: "string option") (customerId: string)

datatype response = Json response_body | Status400 error

text \<open>The \<^verbatim>\<open>try { ... res.json(...) } catch { res.status(400).json(...) }\<close> of a route.\<close>

definition respond :: "response_body io \<Rightarrow> world \<Rightarrow> response \<times> world" where
  "respond m w = (case m w of (Inl e, w') \<Rightarrow> (Status400 e, w') | (Inr b, w') \<Rightarrow> (Json b, w'))"

text \<open>
  Modelled from the spec: the schema \<open>insertCustomerSchema\<close> (\<open>@shared/schema\<close>) is not
  among the sources. Validation requires non-empty email, pcnNumber and
  vehicleRegistration and fails with \<open>ValidationError\<close> otherwise; the parse returns these
  three fields and nothing else of the body.
\<close>

definition insertCustomerSchema_parse :: "request_body \<Rightarrow> (string \<times> string \<times> string) io" where
  "insertCustomerSchema_parse body =
     (if body_email body \<noteq> [] \<and> body_pcnNumber body \<noteq> [] \<and> body_vehicleRegistration body \<noteq> []
      then resolve (body_email body, body_pcnNumber body, body_vehicleRegistration body)
      else reject ValidationError)"

section \<open>The steps both routes share\<close>

text \<open>
  \<^verbatim>\<open>if (!customer) { customer = await storage.createCustomer({...}); }\<close>
\<close>

definition resolveCustomer ::
  "system \<Rightarrow> string \<Rightarrow> string \<Rightarrow> string \<Rightarrow> customer option \<Rightarrow> customer io" where
  "resolveCustomer sys e p v found =
     (case found of None \<Rightarrow> createCustomer sys e p v | Some customer \<Rightarrow> resolve customer)"

text \<open>
  The \<open>else\<close> branch of the Stripe-customer step: \<open>stripe.customers.create\<close>, then
  \<open>storage.updateCustomerStripeInfo(customer.id, stripeCustomer.id)\<close>.
\<close>

definition createStripeCustomer :: "system \<Rightarrow> customer \<Rightarrow> (stripe_object \<times> customer) io" where
  "createStripeCustomer sys customer =
     await (stripe_request sys (CustomersCreate (email customer)
              [(''pcnNumber'', pcnNumber customer),
               (''vehicleRegistration'', vehicleRegistration customer)]))
       (\<lambda>stripeCustomer.
     await (updateCustomerStripeInfo (customer_id customer) (obj_id stripeCustomer) None)
       (\<lambda>customer'. resolve (stripeCustomer, customer')))"

text \<open>
  \<^verbatim>\<open>if (customer.stripeCustomerId) { retrieve } else { create; update }\<close>. The test
  is JavaScript truthiness: an absent and an empty identifier both take the \<open>else\<close>
  branch.
\<close>

definition ensureStripeCustomer :: "system \<Rightarrow> customer \<Rightarrow> (stripe_object \<times> customer) io" where
  "ensureStripeCustomer sys customer =
     (case stripeCustomerId customer of
        None \<Rightarrow> createStripeCustomer sys customer
      | Some pid \<Rightarrow>
          if pid \<noteq> [] then
            await (stripe_request sys (CustomersRetrieve pid))
              (\<lambda>stripeCustomer. resolve (stripeCustomer, customer))
          else createStripeCustomer sys customer)"

section \<open>Route /api/create-subscription (server/routes.ts)\<close>

text \<open>
  The route from the point where \<open>storage.getCustomerByEmail\<close> has answered with
  \<open>found\<close>. Requests are served concurrently; another request may have changed the
  Registry between the lookup and this continuation.
\<close>

definition createSubscription_afterLookup ::
  "system \<Rightarrow> string \<Rightarrow> string \<Rightarrow> string \<Rightarrow> customer option \<Rightarrow> response_body io" where
  "createSubscription_afterLookup sys e pcn vreg found =
     await (resolveCustomer sys e pcn vreg found) (\<lambda>customer.
     await (ensureStripeCustomer sys customer) (\<lambda>(stripeCustomer, customer).
     await (stripe_request sys (ProductsCreate
              (''PCN Payment Plan - '' @ pcn)
              (''Recurring payment plan for PCN '' @ pcn @ '', Vehicle '' @ vreg))) (\<lambda>product.
     await (stripe_request sys (PricesCreate 3000 (obj_id product))) (\<lambda>price.
     await (stripe_request sys (SubscriptionsCreate (obj_id stripeCustomer) (obj_id price)
              [(''pcnNumber'', pcnNumber customer),
               (''vehicleRegistration'', vehicleRegistration customer),
               (''totalPayments'', ''3'')]
              (Date_now sys div 1000 + 90 * 24 * 60 * 60))) (\<lambda>subscription.
     await (updateCustomerStripeInfo (customer_id customer) (obj_id stripeCustomer)
              (Some (obj_id subscription))) (\<lambda>_.
     resolve (SubscriptionResponse (obj_client_secret subscription) (obj_id subscription)
                (customer_id customer))))))))"

definition createSubscription :: "system \<Rightarrow> request_body \<Rightarrow> world \<Rightarrow> response \<times> world" where
  "createSubscription sys body =
     respond (
       await (insertCustomerSchema_parse body) (\<lambda>(e, pcn, vreg).
       await (getCustomerByEmail e) (\<lambda>found.
       createSubscription_afterLookup sys e pcn vreg found)))"

section \<open>Route /api/create-checkout-session (subscription schedule)\<close>

definition env_str :: "string option \<Rightarrow> string" where
  "env_str v = (case v of None \<Rightarrow> [] | Some s \<Rightarrow> s)"

text \<open>
  The chain of \<open>||\<close> and \<open>&&\<close> over the environment: an unset and an empty variable are
  both falsy.
\<close>

definition domainURL :: "process_env \<Rightarrow> string" where
  "domainURL e =
     (if env_str (CUSTOM_DOMAIN_URL e) \<noteq> [] then env_str (CUSTOM_DOMAIN_URL e)
      else if env_str (WEBSITE_HOSTNAME e) \<noteq> [] then ''https://'' @ env_str (WEBSITE_HOSTNAME e)
      else if env_str (REPL_SLUG e) \<noteq> [] \<and> env_str (REPL_OWNER e) \<noteq> []
        then ''https://'' @ env_str (REPL_SLUG e) @ ''.'' @ env_str (REPL_OWNER e) @ ''.repl.co''
      else if env_str (WEBSITE_URL e) \<noteq> [] then env_str (WEBSITE_URL e)
      else ''http://localhost:5000'')"

text \<open>
  The route that creates a subscription schedule and a checkout session from
  \<open>penaltyAmount\<close>, the one the payment form posts to. (The sources also hold an
  earlier copy of the routes file, whose checkout-session route parses the body with the
  schema, uses the fixed price of 3000 and creates no schedule; it is not modelled.)
  The body is destructured as it arrives: this route does not call the schema.
  The pound sign of the product description is the character with code 0xA3.
\<close>

definition createCheckoutSession_afterLookup ::
  "system \<Rightarrow> request_body \<Rightarrow> customer option \<Rightarrow> response_body io" where
  "createCheckoutSession_afterLookup sys body found =
     (let e = body_email body; pcn = body_pcnNumber body;
          vreg = body_vehicleRegistration body; penaltyAmount = body_penaltyAmount body in
     await (resolveCustomer sys e pcn vreg found) (\<lambda>customer.
     await (ensureStripeCustomer sys customer) (\<lambda>(stripeCustomer, customer).
     await (stripe_request sys (ProductsCreate
              (''PCN Payment Plan - '' @ pcn)
              (''Recurring payment plan for PCN '' @ pcn @ '', Vehicle '' @ vreg @
               '', Total: '' @ [CHR 0xA3] @ Number_toString sys penaltyAmount))) (\<lambda>product.
     await (stripe_request sys
              (case monthlyAmountInPence penaltyAmount of
                 Some unit_amount \<Rightarrow> PricesCreate unit_amount (obj_id product)
               | None \<Rightarrow> PricesCreateNonFinite (obj_id product))) (\<lambda>price.
     await (stripe_request sys (SubscriptionSchedulesCreate (obj_id stripeCustomer)
              [(''pcnNumber'', pcnNumber customer),
               (''vehicleRegistration'', vehicleRegistration customer),
               (''totalPayments'', ''3''),
               (''penaltyAmount'', Number_toString sys penaltyAmount),
               (''monthlyAmount'', Number_toFixed2 sys (penaltyAmount / 3))]
              (obj_id price) schedule_iterations)) (\<lambda>schedule.
     await (stripe_request sys (CheckoutSessionsCreate (obj_id stripeCustomer)
              (obj_subscription schedule)
              (domainURL (env sys) @ ''/payment-success?session_id={CHECKOUT_SESSION_ID}'')
              (domainURL (env sys) @ ''/'')
              [(''customerId'', customer_id customer),
               (''pcnNumber'', pcnNumber customer),
               (''vehicleRegistration'', vehicleRegistration customer),
               (''penaltyAmount'', Number_toString sys penaltyAmount),
               (''monthlyAmount'', Number_toFixed2 sys (penaltyAmount / 3))])) (\<lambda>session.
     resolve (CheckoutResponse (obj_id session) (obj_url session)
                (customer_id customer)))))))))"

definition createCheckoutSession :: "system \<Rightarrow> request_body \<Rightarrow> world \<Rightarrow> response \<times> world" where
  "createCheckoutSession sys body =
     respond (
       await (getCustomerByEmail (body_email body)) (\<lambda>found.
       createCheckoutSession_afterLookup sys body found))"

section \<open>Both routes\<close>

datatype route = CreateSubscription | CreateCheckoutSession

definition post :: "route \<Rightarrow> system \<Rightarrow> request_body \<Rightarrow> world \<Rightarrow> response \<times> world" where
  "post r sys body =
     (case r of CreateSubscription \<Rightarrow> createSubscription sys body
              | CreateCheckoutSession \<Rightarrow> createCheckoutSession sys body)"

text \<open>
  What each route accepts: the subscription route parses the body with the schema, the
  checkout-session route takes the body as it is.
\<close>

definition accepted :: "route \<Rightarrow> request_body \<Rightarrow> bool" where
  "accepted r body =
     (case r of
        CreateSubscription \<Rightarrow>
          body_email body \<noteq> [] \<and> body_pcnNumber body \<noteq> [] \<and>
          body_vehicleRegistration body \<noteq> []
      | CreateCheckoutSession \<Rightarrow> True)"

fun run_requests :: "route \<Rightarrow> system \<Rightarrow> request_body list \<Rightarrow> world \<Rightarrow> world" where
  "run_requests r sys [] w = w"
| "run_requests r sys (body # bodies) w = run_requests r sys bodies (snd (post r sys body w))"

section \<open>Observations on a run\<close>

definition new_events :: "world \<Rightarrow> world \<Rightarrow> event list" where
  "new_events w w' = drop (length (trace w)) (trace w')"

definition records_for :: "string \<Rightarrow> customer list \<Rightarrow> nat" where
  "records_for e db = length (filter (\<lambda>c. email c = e) db)"


text \<open>The customer calls (retrieve, create) among the events, in order.\<close>

fun customer_calls :: "event list \<Rightarrow> stripe_call list" where
  "customer_calls [] = []"
| "customer_calls (StripeCall (CustomersRetrieve pid) r # es) =
     CustomersRetrieve pid # customer_calls es"
| "customer_calls (StripeCall (CustomersCreate e m) r # es) =
     CustomersCreate e m # customer_calls es"
| "customer_calls (ev # es) = customer_calls es"



text \<open>
  A Registry row keeps its identity: identifier, email, PCN number and vehicle
  registration stay, and a processor customer identifier, once stored, stays the same.
\<close>

definition keeps_identity :: "customer \<Rightarrow> customer \<Rightarrow> bool" where
  "keeps_identity c c' =
     (customer_id c' = customer_id c \<and> email c' = email c \<and>
      pcnNumber c' = pcnNumber c \<and> vehicleRegistration c' = vehicleRegistration c \<and>
      (case stripeCustomerId c of None \<Rightarrow> True | Some p \<Rightarrow> stripeCustomerId c' = Some p))"

definition registry_grows :: "customer list \<Rightarrow> customer list \<Rightarrow> bool" where
  "registry_grows db db' =
     (length db \<le> length db' \<and> list_all2 keeps_identity db (take (length db) db'))"

text \<open>A step \<open>m\<close> relates the world before it to the world after it by \<open>R\<close>.\<close>

definition preserves :: "(world \<Rightarrow> world \<Rightarrow> bool) \<Rightarrow> 'a io \<Rightarrow> bool" where
  "preserves R m = (\<forall>w r w'. m w = (r, w') \<longrightarrow> R w w')"

definition grows :: "world \<Rightarrow> world \<Rightarrow> bool" where
  "grows w w' = registry_grows (customers w) (customers w')"

text \<open>The charge-scheme calls: product, price, subscription and schedule creation.\<close>

fun charge_scheme_call :: "stripe_call \<Rightarrow> bool" where
  "charge_scheme_call (ProductsCreate n d) = True"
| "charge_scheme_call (PricesCreate a p) = True"
| "charge_scheme_call (PricesCreateNonFinite p) = True"
| "charge_scheme_call (SubscriptionsCreate c p m t) = True"
| "charge_scheme_call (SubscriptionSchedulesCreate c m p n) = True"
| "charge_scheme_call c = False"

text \<open>
  \<open>persisted_before_charge pending es\<close> scans the events with the identifier of a
  processor customer that was created and is not yet stored (\<open>pending\<close>): a successful
  attachment of that identifier clears it, and a charge-scheme call is allowed only
  when nothing is pending.
\<close>

fun persisted_before_charge :: "string option \<Rightarrow> event list \<Rightarrow> bool" where
  "persisted_before_charge pending [] = True"
| "persisted_before_charge pending (StripeCall (CustomersCreate e m) (Inr obj) # es) =
     persisted_before_charge (Some (obj_id obj)) es"
| "persisted_before_charge pending (StripeCall c r # es) =
     ((if charge_scheme_call c then pending = None else True) \<and>
      persisted_before_charge pending es)"
| "persisted_before_charge pending (UpdateCustomerStripeInfo cid pid sub (Inr c) # es) =
     persisted_before_charge
       (if pending = Some pid \<and> stripeCustomerId c = Some pid then None else pending) es"
| "persisted_before_charge pending (UpdateCustomerStripeInfo cid pid sub (Inl e) # es) =
     persisted_before_charge pending es"

text \<open>The unit amounts of the prices created, in order.\<close>

fun price_amounts :: "event list \<Rightarrow> int list" where
  "price_amounts [] = []"
| "price_amounts (StripeCall (PricesCreate a p) r # es) = a # price_amounts es"
| "price_amounts (ev # es) = price_amounts es"

text \<open>Name and description of the products created; metadata of the subscriptions created.\<close>

fun product_calls :: "event list \<Rightarrow> (string \<times> string) list" where
  "product_calls [] = []"
| "product_calls (StripeCall (ProductsCreate n d) r # es) = (n, d) # product_calls es"
| "product_calls (ev # es) = product_calls es"

fun subscription_metadata :: "event list \<Rightarrow> metadata list" where
  "subscription_metadata [] = []"
| "subscription_metadata (StripeCall (SubscriptionsCreate c p m t) r # es) =
     m # subscription_metadata es"
| "subscription_metadata (ev # es) = subscription_metadata es"

text \<open>The \<open>cancel_at\<close> of the subscriptions created.\<close>

fun subscription_cancel_ats :: "event list \<Rightarrow> int list" where
  "subscription_cancel_ats [] = []"
| "subscription_cancel_ats (StripeCall (SubscriptionsCreate c p m t) r # es) =
     t # subscription_cancel_ats es"
| "subscription_cancel_ats (ev # es) = subscription_cancel_ats es"

text \<open>
  The price of the subscription route recurs with \<^verbatim>\<open>interval: 'month'\<close> and
  \<^verbatim>\<open>interval_count: 1\<close>: a billing period starts, and its invoice is issued, when the
  subscription is created and at the same time on the same day of each following month,
  for as long as the subscription has not been cancelled.
  \<open>days_from_civil y m d\<close> counts the days from 1 January 1970 to day \<open>d\<close> of month
  \<open>m\<close> of year \<open>y\<close> in the Gregorian calendar, years being counted from 1 March in
  cycles of 400 years (146097 days); \<open>utc_midnight\<close> is the time stamp of that day at
  00:00:00 UTC, in seconds, the unit of \<open>cancel_at\<close>; \<open>monthly_billing_dates y m d n\<close>
  are the first \<open>n\<close> billing dates of a subscription created at that time (for a day
  that every month has).
\<close>

definition days_from_civil :: "int \<Rightarrow> int \<Rightarrow> int \<Rightarrow> int" where
  "days_from_civil y m d =
     (let y' = (if m \<le> 2 then y - 1 else y);
          era = y' div 400;
          year_of_era = y' - era * 400;
          day_of_year = (153 * (if 2 < m then m - 3 else m + 9) + 2) div 5 + d - 1;
          day_of_era = year_of_era * 365 + year_of_era div 4 - year_of_era div 100 + day_of_year
      in era * 146097 + day_of_era - 719468)"

definition utc_midnight :: "int \<Rightarrow> int \<Rightarrow> int \<Rightarrow> int" where
  "utc_midnight y m d = 86400 * days_from_civil y m d"

definition monthly_billing_dates :: "int \<Rightarrow> int \<Rightarrow> int \<Rightarrow> nat \<Rightarrow> int list" where
  "monthly_billing_dates y m d n =
     map (\<lambda>k. utc_midnight (y + (m - 1 + int k) div 12) ((m - 1 + int k) mod 12 + 1) d) [0..<n]"

text \<open>The subscription identifiers the attachments of a run carry.\<close>

fun attached_subscriptions :: "event list \<Rightarrow> string option list" where
  "attached_subscriptions [] = []"
| "attached_subscriptions (UpdateCustomerStripeInfo cid pid sub r # es) =
     sub # attached_subscriptions es"
| "attached_subscriptions (ev # es) = attached_subscriptions es"

text \<open>
  The metadata a call sends with the object it creates: none for a retrieval, empty for
  a product and a price, whose parameters have no metadata.
\<close>

fun call_metadata :: "stripe_call \<Rightarrow> metadata option" where
  "call_metadata (CustomersRetrieve pid) = None"
| "call_metadata (CustomersCreate e m) = Some m"
| "call_metadata (ProductsCreate n d) = Some []"
| "call_metadata (PricesCreate a p) = Some []"
| "call_metadata (PricesCreateNonFinite p) = Some []"
| "call_metadata (SubscriptionsCreate c p m t) = Some m"
| "call_metadata (SubscriptionSchedulesCreate c m p n) = Some m"
| "call_metadata (CheckoutSessionsCreate c s su cu m) = Some m"

definition required_metadata :: "route \<Rightarrow> metadata \<Rightarrow> bool" where
  "required_metadata r m =
     (map_of m ''pcnNumber'' \<noteq> None \<and> map_of m ''vehicleRegistration'' \<noteq> None \<and>
      map_of m ''totalPayments'' = Some ''3'' \<and>
      (if r = CreateCheckoutSession
       then map_of m ''penaltyAmount'' \<noteq> None \<and> map_of m ''monthlyAmount'' \<noteq> None
       else True))"

fun event_carries :: "route \<Rightarrow> event \<Rightarrow> bool" where
  "event_carries r (StripeCall c res) =
     (case call_metadata c of None \<Rightarrow> True | Some m \<Rightarrow> required_metadata r m)"
| "event_carries r (UpdateCustomerStripeInfo cid pid sub res) = True"

text \<open>The metadata keys each kind of call sends, as the routes write them.\<close>

fun coded_keys :: "stripe_call \<Rightarrow> string list" where
  "coded_keys (CustomersRetrieve pid) = []"
| "coded_keys (CustomersCreate e m) = [''pcnNumber'', ''vehicleRegistration'']"
| "coded_keys (ProductsCreate n d) = []"
| "coded_keys (PricesCreate a p) = []"
| "coded_keys (PricesCreateNonFinite p) = []"
| "coded_keys (SubscriptionsCreate c p m t) =
     [''pcnNumber'', ''vehicleRegistration'', ''totalPayments'']"
| "coded_keys (SubscriptionSchedulesCreate c m p n) =
     [''pcnNumber'', ''vehicleRegistration'', ''totalPayments'', ''penaltyAmount'', ''monthlyAmount'']"
| "coded_keys (CheckoutSessionsCreate c s su cu m) =
     [''customerId'', ''pcnNumber'', ''vehicleRegistration'', ''penaltyAmount'', ''monthlyAmount'']"

definition value_if_present :: "metadata \<Rightarrow> string \<Rightarrow> string \<Rightarrow> bool" where
  "value_if_present m k v = (case map_of m k of None \<Rightarrow> True | Some v' \<Rightarrow> v' = v)"

fun event_as_coded :: "system \<Rightarrow> request_body \<Rightarrow> event \<Rightarrow> bool" where
  "event_as_coded sys body (StripeCall c res) =
     (case call_metadata c of
        None \<Rightarrow> True
      | Some m \<Rightarrow>
          map fst m = coded_keys c \<and>
          value_if_present m ''totalPayments'' ''3'' \<and>
          value_if_present m ''penaltyAmount'' (Number_toString sys (body_penaltyAmount body)) \<and>
          value_if_present m ''monthlyAmount''
            (Number_toFixed2 sys (body_penaltyAmount body / 3)))"
| "event_as_coded sys body (UpdateCustomerStripeInfo cid pid sub res) = True"

text \<open>
  The checkout sessions created: success URL, cancel URL and the session the Processor
  returned.
\<close>

fun session_calls :: "event list \<Rightarrow> (string \<times> string \<times> stripe_object) list" where
  "session_calls [] = []"
| "session_calls (StripeCall (CheckoutSessionsCreate c s su cu m) (Inr session) # es) =
     (su, cu, session) # session_calls es"
| "session_calls (ev # es) = session_calls es"

section \<open>A test double for the Processor and its surroundings\<close>

definition test_object :: "string \<Rightarrow> stripe_object" where
  "test_object i = \<lparr>obj_id = i, obj_client_secret = None, obj_subscription = None, obj_url = None\<rparr>"

fun test_stripe :: "event list \<Rightarrow> stripe_call \<Rightarrow> string + stripe_object" where
  "test_stripe h (CustomersRetrieve pid) = Inr (test_object pid)"
| "test_stripe h (CustomersCreate e m) = Inr (test_object ''cus_1'')"
| "test_stripe h (ProductsCreate n d) = Inr (test_object ''prod_1'')"
| "test_stripe h (PricesCreate a p) = Inr (test_object ''price_1'')"
| "test_stripe h (PricesCreateNonFinite p) = Inl ''Invalid integer: Infinity''"
| "test_stripe h (SubscriptionsCreate c p m t) =
     Inr ((test_object ''sub_1'')\<lparr>obj_client_secret := Some ''pi_1_secret''\<rparr>)"
| "test_stripe h (SubscriptionSchedulesCreate c m p n) =
     Inr ((test_object ''sub_sched_1'')\<lparr>obj_subscription := Some ''sub_1''\<rparr>)"
| "test_stripe h (CheckoutSessionsCreate c s su cu m) =
     Inr ((test_object ''cs_test_1'')\<lparr>obj_url := Some ''https://checkout.stripe.com/c/pay/cs_test_1''\<rparr>)"

definition test_toString :: "rat \<Rightarrow> string" where
  "test_toString x =
     (if x = 90 then ''90'' else if x = 0 then ''0'' else if x = -5 then ''-5'' else ''91'')"

definition test_toFixed2 :: "rat \<Rightarrow> string" where
  "test_toFixed2 x =
     (if x = 30 then ''30.00'' else if x = 0 then ''0.00'' else if x = -5 / 3 then ''-1.67''
      else ''30.33'')"

definition test_system :: system where
  "test_system =
     \<lparr>stripe = test_stripe,
      randomUUID = (\<lambda>n. ''customer-'' @ replicate n (CHR ''i'')),
      Date_now = 1700000000000,
      env = \<lparr>CUSTOM_DOMAIN_URL = None, WEBSITE_HOSTNAME = None, REPL_SLUG = None,
             REPL_OWNER = None, WEBSITE_URL = None\<rparr>,
      Number_toString = test_toString,
      Number_toFixed2 = test_toFixed2\<rparr>"

definition fresh_world :: world where
  "fresh_world = \<lparr>customers = [], trace = []\<rparr>"

definition test_body :: "rat \<Rightarrow> request_body" where
  "test_body amount =
     \<lparr>body_email = ''a@x.com'', body_pcnNumber = ''PCN1'',
      body_vehicleRegistration = ''AB12CDE'', body_penaltyAmount = amount\<rparr>"

text \<open>A Registry that already holds the customer, with a processor customer attached.\<close>

definition known_customer :: customer where
  "known_customer =
     \<lparr>customer_id = ''customer-'', email = ''a@x.com'', pcnNumber = ''PCN0'',
      vehicleRegistration = ''XY99ZZZ'', stripeCustomerId = Some ''cus_1'',
      stripeSubscriptionId = None\<rparr>"

definition known_world :: world where
  "known_world = \<lparr>customers = [known_customer], trace = []\<rparr>"

section \<open>Running the steps symbolically\<close>

lemma awaitE:
  assumes "await m f w = (r, w'')"
  obtains (fail) e where "m w = (Inl e, w'')" "r = Inl e"
        | (ok) x w' where "m w = (Inr x, w')" "f x w' = (r, w'')"
  using assms by (auto simp: await_def split: prod.splits sum.splits)

lemma resolveE:
  assumes "resolve x w = (r, w')"
  obtains "r = Inr x" "w' = w"
  using assms by (auto simp: resolve_def)

lemma rejectE:
  assumes "reject e w = (r, w')"
  obtains "r = Inl e" "w' = w"
  using assms by (auto simp: reject_def)

lemma respondE:
  assumes "respond m w = (resp, w')"
  obtains r where "m w = (r, w')" "resp = (case r of Inl e \<Rightarrow> Status400 e | Inr b \<Rightarrow> Json b)"
  using assms by (auto simp: respond_def split: prod.splits sum.splits)

lemma stripe_requestE:
  assumes "stripe_request sys c w = (r, w')"
  obtains (fail) message where "r = Inl (StripeError message)"
            "trace w' = trace w @ [StripeCall c (Inl message)]" "customers w' = customers w"
        | (ok) obj where "r = Inr obj"
            "trace w' = trace w @ [StripeCall c (Inr obj)]" "customers w' = customers w"
  using assms by (auto simp: stripe_request_def Let_def split: sum.splits)

lemma updateCustomerStripeInfoE:
  assumes "updateCustomerStripeInfo cid pid sub w = (r, w')"
  obtains (fail) e where "r = Inl e" "attachProcessorIds cid pid sub (customers w) = Inl e"
            "trace w' = trace w @ [UpdateCustomerStripeInfo cid pid sub (Inl e)]"
            "customers w' = customers w"
        | (ok) c where "r = Inr c"
            "attachProcessorIds cid pid sub (customers w) = Inr (c, customers w')"
            "trace w' = trace w @ [UpdateCustomerStripeInfo cid pid sub (Inr c)]"
  using assms by (auto simp: updateCustomerStripeInfo_def split: sum.splits prod.splits)

lemma getCustomerByEmailE:
  assumes "getCustomerByEmail e w = (r, w')"
  obtains "r = Inr (lookup e (customers w))" "w' = w"
  using assms that unfolding getCustomerByEmail_def by blast

lemma createCustomerE:
  assumes "createCustomer sys e p v w = (r, w')"
  obtains (conflict) "r = Inl ConflictError" "w' = w" "lookup e (customers w) \<noteq> None"
        | (ok) c where "r = Inr c" "lookup e (customers w) = None"
            "customers w' = customers w @ [c]" "trace w' = trace w"
            "email c = e" "pcnNumber c = p" "vehicleRegistration c = v"
            "stripeCustomerId c = None" "stripeSubscriptionId c = None"
            "customer_id c = randomUUID sys (length (customers w))"
proof (cases "lookup e (customers w) = None")
  case True
  define c where "c = \<lparr>customer_id = randomUUID sys (length (customers w)), email = e,
                     pcnNumber = p, vehicleRegistration = v,
                     stripeCustomerId = None, stripeSubscriptionId = None\<rparr>"
  have "r = Inr c" and "w' = w\<lparr>customers := customers w @ [c]\<rparr>"
    using assms True by (simp_all add: createCustomer_def c_def Let_def)
  then show ?thesis
    using True by (intro ok [of c]) (simp_all add: c_def)
next
  case False
  then show ?thesis
    using assms by (intro conflict) (simp_all add: createCustomer_def)
qed

lemma resolveCustomerE:
  assumes "resolveCustomer sys e p v found w = (r, w')"
  obtains (found) c where "found = Some c" "r = Inr c" "w' = w"
        | (conflict) "found = None" "r = Inl ConflictError" "w' = w"
            "lookup e (customers w) \<noteq> None"
        | (created) c where "found = None" "r = Inr c"
            "lookup e (customers w) = None"
            "customers w' = customers w @ [c]" "trace w' = trace w"
            "email c = e" "pcnNumber c = p" "vehicleRegistration c = v"
            "stripeCustomerId c = None" "stripeSubscriptionId c = None"
            "customer_id c = randomUUID sys (length (customers w))"
  using assms unfolding resolveCustomer_def
  by (cases found) (auto elim!: createCustomerE resolveE)

lemma createStripeCustomerE:
  assumes "createStripeCustomer sys c w = (r, w')"
  obtains (create_failed) message where "r = Inl (StripeError message)"
            "customers w' = customers w"
            "trace w' = trace w @ [StripeCall (CustomersCreate (email c)
               [(''pcnNumber'', pcnNumber c), (''vehicleRegistration'', vehicleRegistration c)])
               (Inl message)]"
        | (update_failed) obj e where "r = Inl e" "customers w' = customers w"
            "attachProcessorIds (customer_id c) (obj_id obj) None (customers w) = Inl e"
            "trace w' = trace w @ [StripeCall (CustomersCreate (email c)
               [(''pcnNumber'', pcnNumber c), (''vehicleRegistration'', vehicleRegistration c)])
               (Inr obj), UpdateCustomerStripeInfo (customer_id c) (obj_id obj) None (Inl e)]"
        | (created) obj c' where "r = Inr (obj, c')"
            "attachProcessorIds (customer_id c) (obj_id obj) None (customers w) = Inr (c', customers w')"
            "trace w' = trace w @ [StripeCall (CustomersCreate (email c)
               [(''pcnNumber'', pcnNumber c), (''vehicleRegistration'', vehicleRegistration c)])
               (Inr obj), UpdateCustomerStripeInfo (customer_id c) (obj_id obj) None (Inr c')]"
  using assms unfolding createStripeCustomer_def
  by (auto elim!: awaitE stripe_requestE updateCustomerStripeInfoE resolveE)

lemma ensureStripeCustomerE:
  assumes "ensureStripeCustomer sys c w = (r, w')"
  obtains (retrieve_failed) pid message where "stripeCustomerId c = Some pid" "pid \<noteq> []"
            "r = Inl (StripeError message)" "customers w' = customers w"
            "trace w' = trace w @ [StripeCall (CustomersRetrieve pid) (Inl message)]"
        | (retrieved) pid obj where "stripeCustomerId c = Some pid" "pid \<noteq> []"
            "r = Inr (obj, c)" "customers w' = customers w"
            "trace w' = trace w @ [StripeCall (CustomersRetrieve pid) (Inr obj)]"
        | (create) "stripeCustomerId c = None \<or> stripeCustomerId c = Some []"
            "createStripeCustomer sys c w = (r, w')"
  using assms unfolding ensureStripeCustomer_def
  by (cases "stripeCustomerId c") (auto elim!: awaitE stripe_requestE resolveE split: if_splits)

lemma createSubscriptionE:
  assumes "createSubscription sys body w = (resp, w')"
  obtains (invalid) "resp = Status400 ValidationError" "w' = w"
            "body_email body = [] \<or> body_pcnNumber body = [] \<or> body_vehicleRegistration body = []"
        | (valid) r where "body_email body \<noteq> []" "body_pcnNumber body \<noteq> []"
            "body_vehicleRegistration body \<noteq> []"
            "createSubscription_afterLookup sys (body_email body) (body_pcnNumber body)
               (body_vehicleRegistration body)
               (lookup (body_email body) (customers w)) w = (r, w')"
            "resp = (case r of Inl e \<Rightarrow> Status400 e | Inr b \<Rightarrow> Json b)"
  using assms unfolding createSubscription_def insertCustomerSchema_parse_def
  by (auto elim!: respondE awaitE rejectE resolveE getCustomerByEmailE split: if_splits)

lemma createCheckoutSessionE:
  assumes "createCheckoutSession sys body w = (resp, w')"
  obtains r where
    "createCheckoutSession_afterLookup sys body (lookup (body_email body) (customers w)) w = (r, w')"
    "resp = (case r of Inl e \<Rightarrow> Status400 e | Inr b \<Rightarrow> Json b)"
  using assms unfolding createCheckoutSession_def
  by (auto elim!: respondE awaitE getCustomerByEmailE)

lemmas stepE = awaitE resolveCustomerE ensureStripeCustomerE createStripeCustomerE
  stripe_requestE updateCustomerStripeInfoE resolveE

section \<open>What an attachment does to the Registry\<close>

lemma attach_result:
  "attachProcessorIds cid pid sub db = Inr (c, db') \<Longrightarrow> stripeCustomerId c = Some pid"
  by (auto simp: attachProcessorIds_def attach_def split: list.splits if_splits)

lemma keeps_identity_refl: "keeps_identity c c"
  by (simp add: keeps_identity_def split: option.splits)

lemma keeps_identity_trans:
  "keeps_identity a b \<Longrightarrow> keeps_identity b c \<Longrightarrow> keeps_identity a c"
  by (auto simp: keeps_identity_def split: option.splits)

lemma keeps_identity_attach:
  "\<not> contradicts pid c \<Longrightarrow> keeps_identity c (attach pid sub c)"
  by (auto simp: keeps_identity_def contradicts_def attach_def split: option.splits)

lemma list_all2_keeps_refl: "list_all2 keeps_identity db db"
  by (simp add: list_all2_refl keeps_identity_refl)

lemma list_all2_keeps_trans:
  "list_all2 keeps_identity xs ys \<Longrightarrow> list_all2 keeps_identity ys zs \<Longrightarrow>
   list_all2 keeps_identity xs zs"
  by (rule list_all2_trans [of keeps_identity keeps_identity keeps_identity])
     (auto intro: keeps_identity_trans)

lemma attach_keeps:
  assumes "attachProcessorIds cid pid sub db = Inr (c, db')"
  shows "list_all2 keeps_identity db db'"
proof -
  from assms have no: "\<not> list_ex (contradicts pid) (filter (\<lambda>c. customer_id c = cid) db)"
    and db': "db' = map (\<lambda>x. if customer_id x = cid then attach pid sub x else x) db"
    by (auto simp: attachProcessorIds_def split: list.splits if_splits)
  have "keeps_identity x (if customer_id x = cid then attach pid sub x else x)"
    if "x \<in> set db" for x
  proof (cases "customer_id x = cid")
    case True
    with that no have "\<not> contradicts pid x"
      by (auto simp: list_ex_iff)
    with True show ?thesis
      by (simp add: keeps_identity_attach)
  next
    case False
    then show ?thesis by (simp add: keeps_identity_refl)
  qed
  then show ?thesis
    unfolding db' by (simp add: list_all2_conv_all_nth)
qed

lemma attach_emails:
  "attachProcessorIds cid pid sub db = Inr (c, db') \<Longrightarrow> map email db' = map email db"
  by (auto simp: attachProcessorIds_def attach_def split: list.splits if_splits)

lemma registry_grows_refl: "registry_grows db db"
  by (simp add: registry_grows_def list_all2_keeps_refl)

lemma registry_grows_same_length:
  "list_all2 keeps_identity db db' \<Longrightarrow> registry_grows db db'"
  using list_all2_lengthD [of keeps_identity db db'] by (simp add: registry_grows_def)

lemma registry_grows_append: "registry_grows db (db @ xs)"
  by (simp add: registry_grows_def list_all2_keeps_refl)

lemma registry_grows_trans:
  assumes "registry_grows a b" "registry_grows b c"
  shows "registry_grows a c"
proof -
  from assms have len: "length a \<le> length b" "length b \<le> length c"
    and ab: "list_all2 keeps_identity a (take (length a) b)"
    and bc: "list_all2 keeps_identity b (take (length b) c)"
    by (simp_all add: registry_grows_def)
  from bc have "list_all2 keeps_identity (take (length a) b) (take (length a) (take (length b) c))"
    by (rule list_all2_takeI)
  with len have "list_all2 keeps_identity (take (length a) b) (take (length a) c)"
    by (simp add: min_def)
  with ab have "list_all2 keeps_identity a (take (length a) c)"
    by (rule list_all2_keeps_trans)
  with len show ?thesis
    by (simp add: registry_grows_def)
qed

lemma registry_grows_lookup:
  assumes "registry_grows db db'" "lookup e db = Some c"
  shows "\<exists>c'. lookup e db' = Some c' \<and> keeps_identity c c'"
proof -
  have "\<exists>c'. find (\<lambda>c. email c = e) (xs @ ys) = Some c' \<and> keeps_identity c c'"
    if "list_all2 keeps_identity db xs" "find (\<lambda>c. email c = e) db = Some c" for xs ys
    using that
  proof (induction db xs rule: list_all2_induct)
    case Nil
    then show ?case by simp
  next
    case (Cons x xs y ys')
    then show ?case
      by (cases "email x = e") (auto simp: keeps_identity_def)
  qed
  from this [of "take (length db) db'" "drop (length db) db'"] assms
  show ?thesis
    by (simp add: registry_grows_def lookup_def)
qed

section \<open>The Registry over a whole run\<close>

lemma preservesD: "preserves R m \<Longrightarrow> m w = (r, w') \<Longrightarrow> R w w'"
  by (auto simp: preserves_def)

lemma grows_await:
  assumes "preserves grows m" "\<And>x. preserves grows (f x)"
  shows "preserves grows (await m f)"
  unfolding preserves_def
proof (intro allI impI)
  fix w r w''
  assume "await m f w = (r, w'')"
  then show "grows w w''"
  proof (cases rule: awaitE)
    case (fail e)
    with assms(1) show ?thesis by (auto dest: preservesD)
  next
    case (ok x w')
    with assms have "grows w w'" "grows w' w''"
      by (auto dest: preservesD)
    then show ?thesis
      unfolding grows_def by (rule registry_grows_trans)
  qed
qed

lemma grows_resolve: "preserves grows (resolve x)"
  by (auto simp: preserves_def grows_def resolve_def registry_grows_refl)

lemma grows_reject: "preserves grows (reject e)"
  by (auto simp: preserves_def grows_def reject_def registry_grows_refl)

lemma grows_stripe_request: "preserves grows (stripe_request sys c)"
  by (auto simp: preserves_def grows_def registry_grows_refl elim!: stripe_requestE)

lemma grows_getCustomerByEmail: "preserves grows (getCustomerByEmail e)"
  by (auto simp: preserves_def grows_def getCustomerByEmail_def registry_grows_refl)

lemma grows_updateCustomerStripeInfo: "preserves grows (updateCustomerStripeInfo cid pid sub)"
  by (auto simp: preserves_def grows_def registry_grows_refl
      elim!: updateCustomerStripeInfoE dest!: attach_keeps intro: registry_grows_same_length)

lemma grows_resolveCustomer: "preserves grows (resolveCustomer sys e p v found)"
  by (auto simp: preserves_def grows_def registry_grows_refl registry_grows_append
      elim!: resolveCustomerE)

lemma grows_case_prod:
  "(\<And>a b. preserves grows (f a b)) \<Longrightarrow> preserves grows (case p of (a, b) \<Rightarrow> f a b)"
  by (cases p) simp

lemma grows_createStripeCustomer: "preserves grows (createStripeCustomer sys c)"
  unfolding createStripeCustomer_def
  by (intro grows_await grows_stripe_request grows_updateCustomerStripeInfo grows_resolve)

lemma grows_ensureStripeCustomer: "preserves grows (ensureStripeCustomer sys c)"
  unfolding ensureStripeCustomer_def
  by (auto split: option.splits
      intro!: grows_await grows_stripe_request grows_resolve grows_createStripeCustomer)

lemmas grows_intros = grows_await grows_case_prod grows_resolve grows_reject
  grows_stripe_request grows_getCustomerByEmail grows_updateCustomerStripeInfo
  grows_resolveCustomer grows_ensureStripeCustomer

lemma grows_createSubscription_afterLookup:
  "preserves grows (createSubscription_afterLookup sys e pcn vreg found)"
  unfolding createSubscription_afterLookup_def by (intro grows_intros)


lemma createSubscription_grows:
  "registry_grows (customers w) (customers (snd (createSubscription sys body w)))"
proof -
  obtain resp w' where run: "createSubscription sys body w = (resp, w')"
    by fastforce
  then have "grows w w'"
    by (elim createSubscriptionE)
       (auto simp: grows_def registry_grows_refl
          dest: preservesD [OF grows_createSubscription_afterLookup])
  with run show ?thesis by (simp add: grows_def)
qed



lemma attach_errors:
  "attachProcessorIds cid pid sub db = Inl e \<Longrightarrow> e = NotFoundError \<or> e = InvariantViolation"
  by (auto simp: attachProcessorIds_def split: list.splits if_splits)

section \<open>The customer calls of a run\<close>




section \<open>The prices, products and subscriptions of the subscription route\<close>

lemma filter_unique:
  "distinct (map f xs) \<Longrightarrow> x \<in> set xs \<Longrightarrow> filter (\<lambda>y. f y = f x) xs = [x]"
proof (induction xs)
  case Nil
  then show ?case by simp
next
  case (Cons a xs)
  show ?case
  proof (cases "a = x")
    case True
    with Cons.prems have "filter (\<lambda>y. f y = f x) xs = []"
      by (fastforce simp: filter_empty_conv image_iff)
    with True show ?thesis by simp
  next
    case False
    with Cons.prems have "x \<in> set xs" "f a \<noteq> f x"
      by auto
    with Cons show ?thesis by simp
  qed
qed

lemma attach_returns:
  assumes "attachProcessorIds (customer_id c) pid sub db = Inr (c', db')"
    and "c \<in> set db" and "distinct (map customer_id db)"
  shows "c' = attach pid sub c"
  using assms filter_unique [of customer_id db c]
  by (auto simp: attachProcessorIds_def split: list.splits if_splits)

lemma lookup_member: "lookup e db = Some c \<Longrightarrow> c \<in> set db"
  by (auto simp: lookup_def find_Some_iff)

lemma attach_fields:
  "pcnNumber (attach pid sub c) = pcnNumber c"
  "vehicleRegistration (attach pid sub c) = vehicleRegistration c"
  "customer_id (attach pid sub c) = customer_id c"
  "email (attach pid sub c) = email c"
  by (simp_all add: attach_def)

lemma createSubscription_prices:
  assumes run: "createSubscription sys body w = (resp, w')"
  shows "(price_amounts (new_events w w') = [3000] \<or>
          (price_amounts (new_events w w') = [] \<and> (\<exists>e. resp = Status400 e))) \<and>
         list_all (\<lambda>t. t = Date_now sys div 1000 + 90 * 24 * 60 * 60)
           (subscription_cancel_ats (new_events w w')) \<and>
         list_all (\<lambda>m. map_of m ''totalPayments'' = Some ''3'')
           (subscription_metadata (new_events w w'))"
  using run
proof (cases rule: createSubscriptionE)
  case invalid
  then show ?thesis by (simp add: new_events_def)
next
  case (valid r)
  from valid(4) have "(price_amounts (new_events w w') = [3000] \<or>
      (price_amounts (new_events w w') = [] \<and> (\<exists>e. r = Inl e))) \<and>
      list_all (\<lambda>t. t = Date_now sys div 1000 + 90 * 24 * 60 * 60)
        (subscription_cancel_ats (new_events w w')) \<and>
      list_all (\<lambda>m. map_of m ''totalPayments'' = Some ''3'')
        (subscription_metadata (new_events w w'))"
    unfolding createSubscription_afterLookup_def
    by (auto elim!: stepE simp: new_events_def)
  with valid(5) show ?thesis
    by auto
qed

lemma createSubscription_metadata:
  assumes found: "lookup (body_email body) (customers w) = Some c"
    and ids: "distinct (map customer_id (customers w))"
    and run: "createSubscription sys body w = (resp, w')"
  shows "(subscription_metadata (new_events w w') =
            [[(''pcnNumber'', pcnNumber c), (''vehicleRegistration'', vehicleRegistration c),
              (''totalPayments'', ''3'')]] \<or>
          (subscription_metadata (new_events w w') = [] \<and> (\<exists>e. resp = Status400 e))) \<and>
         (product_calls (new_events w w') =
            [(''PCN Payment Plan - '' @ body_pcnNumber body,
              ''Recurring payment plan for PCN '' @ body_pcnNumber body @ '', Vehicle '' @
              body_vehicleRegistration body)] \<or>
          (product_calls (new_events w w') = [] \<and> (\<exists>e. resp = Status400 e)))"
  using run
proof (cases rule: createSubscriptionE)
  case invalid
  then show ?thesis by (simp add: new_events_def)
next
  case (valid r)
  note member = lookup_member [OF found]
  from valid(4) found have
    "(subscription_metadata (new_events w w') =
            [[(''pcnNumber'', pcnNumber c), (''vehicleRegistration'', vehicleRegistration c),
              (''totalPayments'', ''3'')]] \<or>
          (subscription_metadata (new_events w w') = [] \<and> (\<exists>e. r = Inl e))) \<and>
         (product_calls (new_events w w') =
            [(''PCN Payment Plan - '' @ body_pcnNumber body,
              ''Recurring payment plan for PCN '' @ body_pcnNumber body @ '', Vehicle '' @
              body_vehicleRegistration body)] \<or>
          (product_calls (new_events w w') = [] \<and> (\<exists>e. r = Inl e)))"
    unfolding createSubscription_afterLookup_def
    by (auto elim!: stepE simp: new_events_def attach_fields
          dest!: attach_returns [OF _ member ids])
  with valid(5) show ?thesis
    by auto
qed


section \<open>The emails of the Registry over a run\<close>

lemma records_for_count: "records_for e db = count_list (map email db) e"
  by (induction db) (simp_all add: records_for_def)

lemma lookup_None_iff: "lookup e db = None \<longleftrightarrow> e \<notin> set (map email db)"
  by (auto simp: lookup_def find_None_iff)

lemma createSubscription_afterLookup_emails:
  assumes "createSubscription_afterLookup sys e pcn vreg (lookup e (customers w)) w = (r, w')"
  shows "map email (customers w') =
         map email (customers w) @ (if lookup e (customers w) = None then [e] else [])"
  using assms unfolding createSubscription_afterLookup_def
  by (auto elim!: stepE dest!: attach_emails)

lemma createCheckoutSession_afterLookup_emails:
  assumes "createCheckoutSession_afterLookup sys body (lookup (body_email body) (customers w)) w = (r, w')"
  shows "map email (customers w') =
         map email (customers w) @
         (if lookup (body_email body) (customers w) = None then [body_email body] else [])"
  using assms unfolding createCheckoutSession_afterLookup_def Let_def
  by (auto elim!: stepE dest!: attach_emails)

lemma post_emails:
  assumes "accepted r body"
  shows "map email (customers (snd (post r sys body w))) =
         map email (customers w) @
         (if lookup (body_email body) (customers w) = None then [body_email body] else [])"
proof -
  obtain resp w' where run: "post r sys body w = (resp, w')"
    by fastforce
  have "map email (customers w') =
         map email (customers w) @
         (if lookup (body_email body) (customers w) = None then [body_email body] else [])"
  proof (cases r)
    case CreateSubscription
    with run have "createSubscription sys body w = (resp, w')"
      by (simp add: post_def)
    then show ?thesis
    proof (cases rule: createSubscriptionE)
      case invalid
      with assms CreateSubscription show ?thesis
        by (auto simp: accepted_def)
    next
      case (valid r)
      from valid(4) show ?thesis
        by (rule createSubscription_afterLookup_emails)
    qed
  next
    case CreateCheckoutSession
    with run have "createCheckoutSession sys body w = (resp, w')"
      by (simp add: post_def)
    then show ?thesis
      by (elim createCheckoutSessionE) (rule createCheckoutSession_afterLookup_emails)
  qed
  with run show ?thesis by simp
qed

lemma post_records_for:
  assumes "accepted r body" and "records_for (body_email body) (customers w) \<le> 1"
  shows "records_for (body_email body) (customers (snd (post r sys body w))) = 1"
proof (cases "lookup (body_email body) (customers w) = None")
  case True
  then have "count_list (map email (customers w)) (body_email body) = 0"
    by (simp add: lookup_None_iff count_list_0_iff)
  with True show ?thesis
    by (simp add: records_for_count post_emails [OF assms(1)])
next
  case False
  then have "count_list (map email (customers w)) (body_email body) \<noteq> 0"
    by (simp add: lookup_None_iff count_list_0_iff)
  with assms(2) False show ?thesis
    by (simp add: records_for_count post_emails [OF assms(1)])
qed

lemma run_requests_records_for:
  assumes "bodies \<noteq> []" and "\<forall>b\<in>set bodies. body_email b = e \<and> accepted r b"
    and "records_for e (customers w) \<le> 1"
  shows "records_for e (customers (run_requests r sys bodies w)) = 1"
  using assms
proof (induction bodies arbitrary: w)
  case Nil
  then show ?case by simp
next
  case (Cons body bodies)
  from Cons.prems have first: "records_for e (customers (snd (post r sys body w))) = 1"
    using post_records_for [of r body w sys] by simp
  show ?case
  proof (cases "bodies = []")
    case True
    with first show ?thesis by simp
  next
    case False
    with Cons.prems first Cons.IH [of "snd (post r sys body w)"] show ?thesis
      by simp
  qed
qed

lemma conflict_surfaces_subscription:
  assumes "lookup e (customers w) \<noteq> None"
  shows "respond (createSubscription_afterLookup sys e pcn vreg None) w = (Status400 ConflictError, w)"
  using assms
  by (simp add: respond_def createSubscription_afterLookup_def await_def resolveCustomer_def
      createCustomer_def)

lemma conflict_surfaces_checkout:
  assumes "lookup (body_email body) (customers w) \<noteq> None"
  shows "respond (createCheckoutSession_afterLookup sys body None) w = (Status400 ConflictError, w)"
  using assms
  by (simp add: respond_def createCheckoutSession_afterLookup_def Let_def await_def
      resolveCustomer_def createCustomer_def)


section \<open>The response of the checkout-session route\<close>

lemma attach_result_id:
  "attachProcessorIds cid pid sub db = Inr (c, db') \<Longrightarrow> customer_id c = cid"
  by (auto simp: attachProcessorIds_def attach_def filter_eq_Cons_iff split: list.splits if_splits)

lemma lookup_append_new:
  "lookup e db = None \<Longrightarrow> email c = e \<Longrightarrow> lookup e (db @ [c]) = Some c"
  by (induction db) (auto simp: lookup_def)

lemma attach_lookup:
  assumes "attachProcessorIds cid pid sub db = Inr (c1, db')"
    and "lookup e db = Some c" and "customer_id c = cid"
  shows "\<exists>c'. customer_id c1 = customer_id c' \<and> lookup e db' = Some c'"
proof -
  from assms(1) have "registry_grows db db'"
    by (intro registry_grows_same_length attach_keeps)
  from registry_grows_lookup [OF this assms(2)] attach_result_id [OF assms(1)] assms(3)
  show ?thesis
    by (auto simp: keeps_identity_def)
qed

lemma attach_lookup_new:
  assumes "attachProcessorIds cid pid sub (db @ [c]) = Inr (c1, db')"
    and "lookup e db = None" and "email c = e" and "customer_id c = cid"
  shows "\<exists>c'. customer_id c1 = customer_id c' \<and> lookup e db' = Some c'"
  using attach_lookup [OF assms(1) lookup_append_new [OF assms(2,3)] assms(4)] .

lemma createCheckoutSession_afterLookup_success:
  assumes "createCheckoutSession_afterLookup sys body (lookup (body_email body) (customers w)) w =
           (Inr b, w')"
  shows "\<exists>session c'.
           session_calls (new_events w w') =
             [(domainURL (env sys) @ ''/payment-success?session_id={CHECKOUT_SESSION_ID}'',
               domainURL (env sys) @ ''/'', session)] \<and>
           b = CheckoutResponse (obj_id session) (obj_url session) (customer_id c') \<and>
           lookup (body_email body) (customers w') = Some c'"
  using assms unfolding createCheckoutSession_afterLookup_def Let_def
  by (auto elim!: stepE simp: new_events_def lookup_append_new
        intro: attach_lookup attach_lookup_new split: option.splits)


section \<open>What the checkout-session route leaves out\<close>

lemma checkout_route_validates_nothing:
  "fst (createCheckoutSession sys body w) \<noteq> Status400 ValidationError \<and>
   lookup (body_email body) (customers (snd (createCheckoutSession sys body w))) \<noteq> None"
proof -
  obtain resp w' where run: "createCheckoutSession sys body w = (resp, w')"
    by fastforce
  then have "resp \<noteq> Status400 ValidationError \<and> lookup (body_email body) (customers w') \<noteq> None"
  proof (cases rule: createCheckoutSessionE)
    case (1 r)
    from 1(1) have "r \<noteq> Inl ValidationError"
      unfolding createCheckoutSession_afterLookup_def Let_def
      by (auto elim!: stepE dest: attach_errors)
    with 1(2) have "resp \<noteq> Status400 ValidationError"
      by (auto split: sum.splits)
    moreover from createCheckoutSession_afterLookup_emails [OF 1(1)]
    have "body_email body \<in> set (map email (customers w'))"
      by (auto simp: lookup_None_iff split: if_splits)
    ultimately show ?thesis
      by (simp add: lookup_None_iff)
  qed
  with run show ?thesis by simp
qed

lemma checkout_route_attaches_no_subscription:
  "list_all (\<lambda>sub. sub = None)
     (attached_subscriptions (new_events w (snd (createCheckoutSession sys body w))))"
proof -
  obtain resp w' where run: "createCheckoutSession sys body w = (resp, w')"
    by fastforce
  then have "list_all (\<lambda>sub. sub = None) (attached_subscriptions (new_events w w'))"
  proof (cases rule: createCheckoutSessionE)
    case (1 r)
    from 1(1) show ?thesis
      unfolding createCheckoutSession_afterLookup_def Let_def
      by (auto elim!: stepE simp: new_events_def)
  qed
  with run show ?thesis by simp
qed

section \<open>Double arithmetic and the instalment amount\<close>

text \<open>Powers of two, and the exponent of a number from below: \<open>2\<^sup>e \<le> \<bar>x\<bar>\<close>.\<close>

lemma pow2_powi: "pow2 k = 2 powi k"
proof (cases "0 \<le> k")
  case True
  then show ?thesis
    by (simp add: pow2_def power_int_def)
next
  case False
  then have "(2 :: rat) powi k = inverse 2 ^ nat (- k)"
    by (simp add: power_int_def)
  also have "\<dots> = 1 / 2 ^ nat (- k)"
    by (simp add: power_one_over)
  finally show ?thesis
    using False by (simp add: pow2_def)
qed

lemma pow2_pos: "0 < pow2 k"
  by (simp add: pow2_powi)

lemma pow2_diff: "pow2 (a - b) = pow2 a / pow2 b"
  by (simp add: pow2_powi power_int_diff)

lemma pow2_nat: "0 \<le> k \<Longrightarrow> pow2 k = 2 ^ nat k"
  by (simp add: pow2_def)

lemma pow2_mono: "a \<le> b \<Longrightarrow> pow2 a \<le> pow2 b"
  by (simp add: pow2_powi power_int_increasing)

lemma round_half_even_near: "\<bar>of_int (round_half_even y) - y\<bar> \<le> 1 / 2"
proof -
  have "of_int \<lfloor>y\<rfloor> \<le> y" "y < of_int \<lfloor>y\<rfloor> + 1"
    by linarith+
  then show ?thesis
    by (auto simp: round_half_even_def Let_def abs_le_iff)
qed

lemma binary_exponent_le:
  assumes "x \<noteq> 0"
  shows "pow2 (binary_exponent x) \<le> \<bar>x\<bar>"
proof -
  obtain a b where q: "quotient_of x = (a, b)"
    by fastforce
  then have b: "0 < b" and x: "x = of_int a / of_int b"
    by (auto dest: quotient_of_denom_pos quotient_of_div)
  with assms have a: "0 < \<bar>a\<bar>"
    by auto
  define la lb where "la = bitlen \<bar>a\<bar>" and "lb = bitlen b"
  from bitlen_bounds [OF a] have low: "2 ^ nat (la - 1) \<le> \<bar>a\<bar>"
    by (simp add: la_def)
  from bitlen_bounds [OF b] have up: "b < 2 ^ nat lb"
    by (simp add: lb_def)
  have la1: "1 \<le> la"
    using a by (simp add: la_def bitlen_alt_def)
  have lb0: "0 \<le> lb"
    by (simp add: lb_def bitlen_nonneg)
  have absx: "\<bar>x\<bar> = of_int \<bar>a\<bar> / of_int b"
    using b by (simp add: x)
  show ?thesis
  proof (cases "pow2 (la - lb) \<le> \<bar>x\<bar>")
    case True
    with q show ?thesis
      by (simp add: binary_exponent_def la_def lb_def)
  next
    case False
    with q have e: "binary_exponent x = la - lb - 1"
      by (simp add: binary_exponent_def la_def lb_def)
    have "pow2 (la - lb - 1) = pow2 (la - 1) / pow2 lb"
      using pow2_diff [of "la - 1" lb] by (simp add: algebra_simps)
    also have "\<dots> = 2 ^ nat (la - 1) / 2 ^ nat lb"
      using la1 lb0 by (simp add: pow2_nat)
    also have "\<dots> \<le> of_int \<bar>a\<bar> / 2 ^ nat lb"
    proof -
      from low have "(of_int (2 ^ nat (la - 1)) :: rat) \<le> of_int \<bar>a\<bar>"
        by (simp only: of_int_le_iff)
      then show ?thesis
        by (simp add: divide_right_mono)
    qed
    also have "\<dots> \<le> of_int \<bar>a\<bar> / of_int b"
    proof -
      from up have "(of_int b :: rat) \<le> of_int (2 ^ nat lb)"
        by (simp only: of_int_le_iff)
      with b show ?thesis
        by (intro divide_left_mono) (simp_all add: mult_pos_pos)
    qed
    finally show ?thesis
      by (simp add: e absx)
  qed
qed

text \<open>
  Rounding to the nearest double moves a number by at most half the spacing of the
  doubles around it: a relative error of \<open>2\<^sup>-\<^sup>5\<^sup>3\<close>, or \<open>2\<^sup>-\<^sup>1\<^sup>0\<^sup>7\<^sup>5\<close> among the subnormals.
\<close>

lemma quantum_pos: "0 < quantum x"
  by (simp add: quantum_def pow2_pos)

lemma quantum_bound:
  assumes "x \<noteq> 0"
  shows "quantum x / 2 \<le> \<bar>x\<bar> / 2 ^ 53 + 1 / 2 ^ 1075"
proof (cases "- 1022 \<le> binary_exponent x")
  case True
  then have "max (binary_exponent x) (- 1022) = binary_exponent x"
    by simp
  then have "quantum x = pow2 (binary_exponent x) / pow2 52"
    by (simp only: quantum_def pow2_diff)
  also have "\<dots> \<le> \<bar>x\<bar> / pow2 52"
    using assms by (simp add: binary_exponent_le divide_right_mono pow2_pos less_imp_le)
  finally have "quantum x / 2 \<le> \<bar>x\<bar> / pow2 52 / 2"
    by simp
  also have "\<dots> = \<bar>x\<bar> / 2 ^ 53"
    by (simp add: pow2_def)
  finally show ?thesis
    by (simp add: add_increasing2)
next
  case False
  then have "max (binary_exponent x) (- 1022) = - 1022"
    by simp
  then have "quantum x = pow2 (- 1074)"
    by (simp add: quantum_def)
  then have "quantum x / 2 = 1 / 2 ^ 1075"
    by (simp add: pow2_def)
  then show ?thesis
    by (simp add: add_increasing)
qed

lemma nearest_double_zero: "nearest_double 0 = 0"
  by (simp add: nearest_double_def round_half_even_def)

lemma nearest_double_error: "\<bar>nearest_double x - x\<bar> \<le> \<bar>x\<bar> / 2 ^ 53 + 1 / 2 ^ 1075"
proof (cases "x = 0")
  case True
  then show ?thesis
    by (simp add: nearest_double_zero)
next
  case False
  have "nearest_double x - x =
      (of_int (round_half_even (x / quantum x)) - x / quantum x) * quantum x"
    using quantum_pos [of x] by (simp add: nearest_double_def left_diff_distrib)
  then have "\<bar>nearest_double x - x\<bar> =
      \<bar>of_int (round_half_even (x / quantum x)) - x / quantum x\<bar> * \<bar>quantum x\<bar>"
    by (simp only: abs_mult)
  also have "\<dots> = \<bar>of_int (round_half_even (x / quantum x)) - x / quantum x\<bar> * quantum x"
    using quantum_pos [of x] by simp
  also have "\<dots> \<le> 1 / 2 * quantum x"
    using round_half_even_near [of "x / quantum x"] quantum_pos [of x]
    by (intro mult_right_mono) simp_all
  finally show ?thesis
    using quantum_bound [OF False] by simp
qed

lemma nearest_double_near:
  "9007199254740992 * \<bar>nearest_double x - x\<bar> \<le> \<bar>x\<bar> + 1"
proof -
  have "(1 :: rat) / 2 ^ 1075 \<le> 1 / 2 ^ 53"
    by (intro divide_left_mono power_increasing) simp_all
  with nearest_double_error [of x]
  have "\<bar>nearest_double x - x\<bar> \<le> (\<bar>x\<bar> + 1) / 9007199254740992"
    by (simp add: add_divide_distrib)
  then show ?thesis
    by (simp add: field_simps)
qed

text \<open>Numbers of moderate size stay finite.\<close>

lemma to_double_finite:
  assumes "\<bar>x\<bar> \<le> 1000000000000000"
  shows "to_double x = Some (nearest_double x)"
proof -
  define d where "d = \<bar>nearest_double x - x\<bar>"
  define X where "X = \<bar>x\<bar>"
  from nearest_double_near [of x] have "9007199254740992 * d \<le> X + 1"
    by (simp add: d_def X_def)
  with assms have "d \<le> 1"
    unfolding X_def [symmetric] by linarith
  then have "\<bar>nearest_double x\<bar> \<le> \<bar>x\<bar> + 1"
    unfolding d_def by linarith
  with assms have small: "\<bar>nearest_double x\<bar> < 4611686018427387904"
    by linarith
  have "binary_exponent (nearest_double x) < 1024" if "nearest_double x \<noteq> 0"
  proof (rule ccontr)
    assume "\<not> binary_exponent (nearest_double x) < 1024"
    then have "pow2 62 \<le> pow2 (binary_exponent (nearest_double x))"
      by (intro pow2_mono) simp
    also have "\<dots> \<le> \<bar>nearest_double x\<bar>"
      using that by (rule binary_exponent_le)
    finally show False
      using small by (simp add: pow2_def)
  qed
  then show ?thesis
    by (auto simp: to_double_def Let_def)
qed

text \<open>
  The unit amount: three roundings, each with a relative error of \<open>2\<^sup>-\<^sup>5\<^sup>3\<close>, then
  \<open>Math.round\<close>, which moves the result by at most a half.
\<close>

lemma Math_round_upper: "of_int (Math_round x) \<le> x + 1 / 2"
  unfolding Math_round_def by linarith

lemma Math_round_lower: "x - 1 / 2 < of_int (Math_round x)"
  unfolding Math_round_def by linarith

lemma abs_sum3:
  "\<bar>u1 + 100 * u2 + 100 / 3 * u3\<bar> \<le> \<bar>u1\<bar> + 100 * \<bar>u2\<bar> + 100 / 3 * \<bar>u3 :: rat\<bar>"
  by linarith

lemma monthlyAmountInPence_near:
  assumes "\<bar>x\<bar> \<le> 10000000000"
  shows "\<exists>m. monthlyAmountInPence x = Some m \<and> \<bar>3 * rat_of_int m - x * 100\<bar> < 2"
proof -
  define a where "a = nearest_double x"
  define t where "t = nearest_double (a / 3)"
  define s where "s = nearest_double (t * 100)"
  define da dt ds where "da = \<bar>a - x\<bar>" and "dt = \<bar>t - a / 3\<bar>" and "ds = \<bar>s - t * 100\<bar>"
  define X A T where "X = \<bar>x\<bar>" and "A = \<bar>a / 3\<bar>" and "T = \<bar>t * 100\<bar>"
  from assms have X: "X \<le> 10000000000"
    by (simp add: X_def)
  have ea: "9007199254740992 * da \<le> X + 1"
    unfolding a_def da_def X_def by (rule nearest_double_near)
  have et: "9007199254740992 * dt \<le> A + 1"
    unfolding t_def dt_def A_def by (rule nearest_double_near)
  have es: "9007199254740992 * ds \<le> T + 1"
    unfolding s_def ds_def T_def by (rule nearest_double_near)
  from X ea have da1: "da \<le> 1"
    by linarith
  with X have a: "\<bar>a\<bar> \<le> 10000000001"
    unfolding da_def X_def by linarith
  then have A: "A \<le> 10000000001"
    by (simp add: A_def)
  with et have dt1: "dt \<le> 1"
    by linarith
  with A have t: "\<bar>t\<bar> \<le> 10000000002"
    unfolding dt_def A_def by linarith
  then have T: "T \<le> 1000000000200"
    by (simp add: T_def)
  from X have "to_double x = Some a"
    unfolding a_def X_def by (intro to_double_finite) linarith
  moreover from a have "to_double (a / 3) = Some t"
    unfolding t_def by (intro to_double_finite) simp
  moreover from T have "to_double (t * 100) = Some s"
    unfolding s_def T_def by (intro to_double_finite) linarith
  ultimately have m: "monthlyAmountInPence x = Some (Math_round s)"
    by (simp add: monthlyAmountInPence_def)
  have "s - x * 100 / 3 = (s - t * 100) + 100 * (t - a / 3) + 100 / 3 * (a - x)"
    by (simp add: field_simps)
  then have "\<bar>s - x * 100 / 3\<bar> \<le> ds + 100 * dt + 100 / 3 * da"
    unfolding ds_def dt_def da_def by (simp only: abs_sum3)
  moreover from ea X have "da \<le> 1 / 1000"
    by linarith
  moreover from et A have "dt \<le> 1 / 1000"
    by linarith
  moreover from es T have "ds \<le> 1 / 1000"
    by linarith
  ultimately have near: "\<bar>s - x * 100 / 3\<bar> < 1 / 6"
    by linarith
  with Math_round_upper [of s] Math_round_lower [of s]
  have "\<bar>3 * rat_of_int (Math_round s) - x * 100\<bar> < 2"
    by linarith
  with m show ?thesis
    by blast
qed

lemma monthlyAmountInPence_whole_pence:
  assumes "\<bar>p\<bar> \<le> 1000000000000"
  shows "\<exists>m. monthlyAmountInPence (of_int p / 100) = Some m \<and> \<bar>3 * m - p\<bar> \<le> 1"
proof -
  from assms have "\<bar>rat_of_int p\<bar> \<le> 1000000000000"
    by (metis of_int_abs of_int_le_iff of_int_numeral)
  then have "\<bar>rat_of_int p / 100\<bar> \<le> 10000000000"
    by simp
  then obtain m where m: "monthlyAmountInPence (of_int p / 100) = Some m"
    and "\<bar>3 * rat_of_int m - of_int p / 100 * 100\<bar> < 2"
    using monthlyAmountInPence_near by blast
  then have "rat_of_int \<bar>3 * m - p\<bar> < rat_of_int 2"
    by simp
  then have "\<bar>3 * m - p\<bar> < 2"
    by (simp only: of_int_less_iff)
  with m show ?thesis
    by auto
qed

text \<open>
  The exponent from above, \<open>\<bar>x\<bar> < 2\<^sup>e\<^sup>+\<^sup>1\<close>, and overflow: a number of magnitude
  \<open>2\<^sup>1\<^sup>0\<^sup>2\<^sup>4\<close> or more has no finite double, and no finite unit amount.
\<close>

lemma binary_exponent_less:
  assumes "x \<noteq> 0"
  shows "\<bar>x\<bar> < pow2 (binary_exponent x + 1)"
proof -
  obtain a b where q: "quotient_of x = (a, b)"
    by fastforce
  then have b: "0 < b" and x: "x = of_int a / of_int b"
    by (auto dest: quotient_of_denom_pos quotient_of_div)
  with assms have a: "0 < \<bar>a\<bar>"
    by auto
  define la lb where "la = bitlen \<bar>a\<bar>" and "lb = bitlen b"
  from bitlen_bounds [OF a] have up: "\<bar>a\<bar> < 2 ^ nat la"
    by (simp add: la_def)
  from bitlen_bounds [OF b] have low: "2 ^ nat (lb - 1) \<le> b"
    by (simp add: lb_def)
  have la0: "0 \<le> la"
    by (simp add: la_def bitlen_nonneg)
  have lb1: "1 \<le> lb"
    using b by (simp add: lb_def bitlen_alt_def)
  have absx: "\<bar>x\<bar> = of_int \<bar>a\<bar> / of_int b"
    using b by (simp add: x)
  show ?thesis
  proof (cases "pow2 (la - lb) \<le> \<bar>x\<bar>")
    case True
    with q have e: "binary_exponent x = la - lb"
      by (simp add: binary_exponent_def la_def lb_def)
    have "of_int \<bar>a\<bar> / of_int b < (2 ^ nat la :: rat) / of_int b"
    proof -
      from up have "(of_int \<bar>a\<bar> :: rat) < of_int (2 ^ nat la)"
        by (simp only: of_int_less_iff)
      with b show ?thesis
        by (simp add: divide_strict_right_mono)
    qed
    also have "\<dots> \<le> 2 ^ nat la / 2 ^ nat (lb - 1)"
    proof -
      from low have "(of_int (2 ^ nat (lb - 1)) :: rat) \<le> of_int b"
        by (simp only: of_int_le_iff)
      with b show ?thesis
        by (intro divide_left_mono) (simp_all add: mult_pos_pos)
    qed
    also have "\<dots> = pow2 la / pow2 (lb - 1)"
      using la0 lb1 by (simp add: pow2_nat)
    also have "\<dots> = pow2 (la - lb + 1)"
      using pow2_diff [of la "lb - 1"] by (simp add: algebra_simps)
    finally show ?thesis
      by (simp add: e absx)
  next
    case False
    with q show ?thesis
      by (simp add: binary_exponent_def la_def lb_def)
  qed
qed

lemma pow2_less_imp: "pow2 a < pow2 b \<Longrightarrow> a < b"
  using pow2_mono [of b a] by (cases "a < b") simp_all

lemma binary_exponent_ge:
  assumes "x \<noteq> 0" and "pow2 k \<le> \<bar>x\<bar>"
  shows "k \<le> binary_exponent x"
proof -
  from assms binary_exponent_less [of x] have "pow2 k < pow2 (binary_exponent x + 1)"
    by simp
  then show ?thesis
    by (auto dest: pow2_less_imp)
qed

lemma round_half_even_ge:
  assumes "of_int n \<le> y"
  shows "n \<le> round_half_even y"
proof -
  from assms have "n \<le> \<lfloor>y\<rfloor>"
    by (simp add: le_floor_iff)
  then show ?thesis
    by (auto simp: round_half_even_def Let_def)
qed

lemma round_half_even_le:
  assumes "y \<le> of_int n"
  shows "round_half_even y \<le> n"
proof (cases "y = of_int n")
  case True
  then show ?thesis
    by (simp add: round_half_even_def)
next
  case False
  with assms have "y < of_int n"
    by simp
  then have "\<lfloor>y\<rfloor> < n"
    by (simp add: floor_less_iff)
  then show ?thesis
    by (auto simp: round_half_even_def Let_def)
qed

lemma round_half_even_abs:
  assumes "of_int n \<le> \<bar>y\<bar>"
  shows "n \<le> \<bar>round_half_even y\<bar>"
proof (cases "0 \<le> y")
  case True
  with assms have "n \<le> round_half_even y"
    by (intro round_half_even_ge) simp
  then show ?thesis
    by simp
next
  case False
  with assms have "y \<le> of_int (- n)"
    by simp
  then have "round_half_even y \<le> - n"
    by (rule round_half_even_le)
  then show ?thesis
    by simp
qed

lemma to_double_overflow:
  assumes "2 ^ 1024 \<le> \<bar>x\<bar>"
  shows "to_double x = None"
proof -
  define e where "e = binary_exponent x"
  define q where "q = quantum x"
  define n where "n = round_half_even (x / q)"
  have big: "pow2 1024 \<le> \<bar>x\<bar>"
    using assms by (simp add: pow2_def)
  have x: "x \<noteq> 0"
    using assms by auto
  with big have e: "1024 \<le> e"
    unfolding e_def by (intro binary_exponent_ge)
  then have "max e (- 1022) = e"
    by simp
  then have q: "q = pow2 e / pow2 52"
    by (simp only: q_def quantum_def e_def [symmetric] pow2_diff)
  have qpos: "0 < q"
    by (simp add: q_def quantum_pos)
  have "pow2 e \<le> \<bar>x\<bar>"
    unfolding e_def using x by (rule binary_exponent_le)
  then have "pow2 52 * q \<le> \<bar>x\<bar>"
    by (simp add: q pow2_def)
  with qpos have "pow2 52 \<le> \<bar>x\<bar> / q"
    by (simp add: pos_le_divide_eq)
  then have "rat_of_int (2 ^ 52) \<le> \<bar>x / q\<bar>"
    using qpos by (simp add: pow2_def)
  then have "2 ^ 52 \<le> \<bar>n\<bar>"
    unfolding n_def by (rule round_half_even_abs)
  then have "rat_of_int (2 ^ 52) \<le> of_int \<bar>n\<bar>"
    by (simp only: of_int_le_iff)
  then have "pow2 52 \<le> \<bar>rat_of_int n\<bar>"
    by (simp add: pow2_def)
  with qpos have "pow2 52 * q \<le> \<bar>rat_of_int n\<bar> * q"
    by (intro mult_right_mono) simp_all
  moreover have "pow2 52 * q = pow2 e"
    by (simp add: q pow2_def)
  moreover have "\<bar>nearest_double x\<bar> = \<bar>rat_of_int n\<bar> * q"
    using qpos by (simp add: nearest_double_def n_def q_def abs_mult)
  ultimately have "pow2 e \<le> \<bar>nearest_double x\<bar>"
    by simp
  with e have v: "pow2 1024 \<le> \<bar>nearest_double x\<bar>"
    using pow2_mono [of 1024 e] by simp
  moreover from v pow2_pos [of 1024] have "nearest_double x \<noteq> 0"
    by auto
  ultimately have "1024 \<le> binary_exponent (nearest_double x)"
    by (intro binary_exponent_ge)
  with \<open>nearest_double x \<noteq> 0\<close> show ?thesis
    by (simp add: to_double_def)
qed

lemma monthlyAmountInPence_overflow:
  "2 ^ 1024 \<le> \<bar>penaltyAmount\<bar> \<Longrightarrow> monthlyAmountInPence penaltyAmount = None"
  by (simp add: monthlyAmountInPence_def to_double_overflow)

text \<open>The schedule bills the unit amount three times.\<close>

lemma replicate_three: "replicate 3 x = [x, x, x]"
  by (simp add: numeral_3_eq_3)

lemma instalments_eq:
  "instalments A = map_option (\<lambda>m. [m, m, m]) (monthlyAmountInPence A)"
  by (simp add: instalments_def phase_charges_def schedule_iterations_def replicate_three)

text \<open>
  The model on numbers whose doubles are known: a tenth, a tie at \<open>2\<^sup>5\<^sup>3\<close> going to the
  even significand, and unit amounts where the double result differs from the exact one.
\<close>

lemma to_double_examples:
  "to_double (1 / 10) = Some (3602879701896397 / 36028797018963968)"
  "to_double (2 ^ 53 + 1) = Some (2 ^ 53)"
  "to_double (2 ^ 53 + 3) = Some (2 ^ 53 + 4)"
  by code_simp+

lemma monthlyAmountInPence_examples:
  "monthlyAmountInPence 90 = Some 3000"
  "monthlyAmountInPence (105 / 1000) = Some 3"
  "monthlyAmountInPence (15 / 1000) = Some 1"
  "monthlyAmountInPence (10 ^ 15) = Some 33333333333333332"
  by code_simp+


section \<open>The ordering check refuses a charge before the attachment\<close>

lemma persisted_before_charge_refuses:
  "\<not> persisted_before_charge None
       [StripeCall (CustomersCreate e m) (Inr obj), StripeCall (ProductsCreate n d) r]"
  by simp

lemma persisted_before_charge_accepts:
  "stripeCustomerId c = Some (obj_id obj) \<Longrightarrow>
   persisted_before_charge None
     [StripeCall (CustomersCreate e m) (Inr obj),
      UpdateCustomerStripeInfo cid (obj_id obj) None (Inr c),
      StripeCall (ProductsCreate n d) r]"
  by simp

section \<open>The claims\<close>

text \<open>
  Claim C1, as the specification states it: for a total of 91.00 the instalments would
  be 3034, 3033 and 3033 and add up to \<open>round (91 * 100) = 9100\<close>. The route creates
  one price of 3033 and bills it three times: the instalments are 3033, 3033 and 3033,
  which add up to 9099. No instalment receives a remainder.
\<close>

theorem C1_split_counterexample:
  "instalments 91 = Some [3033, 3033, 3033] \<and>
   sum_list [3033, 3033, 3033] = (9099 :: int) \<and>
   Math_round (91 * 100) = 9100 \<and>
   map_option sum_list (instalments 91) \<noteq> Some (Math_round (91 * 100))"
  by code_simp

text \<open>
  Claim C1, amended: the three instalments are one and the same amount, the unit amount
  \<open>Math.round((A / 3) * 100)\<close> as double arithmetic computes it (there are none when
  that amount is not finite), and no instalment receives a remainder. For a total of
  magnitude at most \<open>10\<^sup>1\<^sup>0\<close> the three instalments exist and their sum is less than
  two minor units away from \<open>A * 100\<close>; when the total is a whole number \<open>p\<close> of minor
  units, of magnitude at most \<open>10\<^sup>1\<^sup>2\<close>, the sum is within one minor unit of \<open>p\<close>.
\<close>

theorem C1_split_amended:
  "instalments A = map_option (\<lambda>m. [m, m, m]) (monthlyAmountInPence A) \<and>
   (\<bar>A\<bar> \<le> 10000000000 \<longrightarrow>
      (\<exists>m. instalments A = Some [m, m, m] \<and>
           \<bar>rat_of_int (sum_list [m, m, m]) - A * 100\<bar> < 2)) \<and>
   (\<bar>p\<bar> \<le> 1000000000000 \<longrightarrow>
      (\<exists>m. instalments (of_int p / 100) = Some [m, m, m] \<and>
           \<bar>sum_list [m, m, m] - p\<bar> \<le> 1))"
proof (intro conjI impI)
  show "instalments A = map_option (\<lambda>m. [m, m, m]) (monthlyAmountInPence A)"
    by (rule instalments_eq)
next
  assume "\<bar>A\<bar> \<le> 10000000000"
  then obtain m where "monthlyAmountInPence A = Some m"
    and "\<bar>3 * rat_of_int m - A * 100\<bar> < 2"
    using monthlyAmountInPence_near by blast
  then have "instalments A = Some [m, m, m] \<and>
      \<bar>rat_of_int (sum_list [m, m, m]) - A * 100\<bar> < 2"
    by (simp add: instalments_eq)
  then show "\<exists>m. instalments A = Some [m, m, m] \<and>
      \<bar>rat_of_int (sum_list [m, m, m]) - A * 100\<bar> < 2"
    by blast
next
  assume "\<bar>p\<bar> \<le> 1000000000000"
  then obtain m where "monthlyAmountInPence (of_int p / 100) = Some m" and "\<bar>3 * m - p\<bar> \<le> 1"
    using monthlyAmountInPence_whole_pence by blast
  then have "instalments (of_int p / 100) = Some [m, m, m] \<and> \<bar>sum_list [m, m, m] - p\<bar> \<le> 1"
    by (simp add: instalments_eq)
  then show "\<exists>m. instalments (of_int p / 100) = Some [m, m, m] \<and> \<bar>sum_list [m, m, m] - p\<bar> \<le> 1"
    by blast
qed

theorem C1_split_amended_witness:
  "\<bar>91 :: rat\<bar> \<le> 10000000000 \<and> \<bar>9100 :: int\<bar> \<le> 1000000000000 \<and>
   (\<exists>m. instalments 91 = Some [m, m, m] \<and> \<bar>rat_of_int (sum_list [m, m, m]) - 91 * 100\<bar> < 2) \<and>
   (\<exists>m. instalments (of_int 9100 / 100) = Some [m, m, m] \<and> \<bar>sum_list [m, m, m] - 9100\<bar> \<le> 1)"
proof -
  have "\<bar>91 :: rat\<bar> \<le> 10000000000" and "\<bar>9100 :: int\<bar> \<le> 1000000000000"
    by simp_all
  with C1_split_amended [of 91 9100] show ?thesis
    by blast
qed

text \<open>
  Claim C2 at the failing inputs. The checkout-session route destructures the body and
  goes straight to the Registry (its comment reads "Validate and fetch customer", and it
  imports the schema without calling it): a request with \<open>penaltyAmount = 0\<close>, one with
  \<open>penaltyAmount = -5\<close> and one with empty strings each get a Registry row, a price (of
  0 and of -167 minor units for the first two) and, with a Processor that accepts, a
  successful response. The subscription route parses the body with the schema first and
  answers the empty request with a \<open>ValidationError\<close>, the Registry untouched.
\<close>

theorem C2_checkout_skips_validation:
  "fst (createCheckoutSession test_system (test_body 0) fresh_world) =
     Json (CheckoutResponse ''cs_test_1''
       (Some ''https://checkout.stripe.com/c/pay/cs_test_1'') ''customer-'') \<and>
   price_amounts (new_events fresh_world
     (snd (createCheckoutSession test_system (test_body 0) fresh_world))) = [0] \<and>
   records_for ''a@x.com''
     (customers (snd (createCheckoutSession test_system (test_body 0) fresh_world))) = 1 \<and>
   fst (createCheckoutSession test_system (test_body (- 5)) fresh_world) =
     Json (CheckoutResponse ''cs_test_1''
       (Some ''https://checkout.stripe.com/c/pay/cs_test_1'') ''customer-'') \<and>
   price_amounts (new_events fresh_world
     (snd (createCheckoutSession test_system (test_body (- 5)) fresh_world))) = [- 167] \<and>
   fst (createCheckoutSession test_system
     \<lparr>body_email = [], body_pcnNumber = [], body_vehicleRegistration = [],
      body_penaltyAmount = 90\<rparr> fresh_world) =
     Json (CheckoutResponse ''cs_test_1''
       (Some ''https://checkout.stripe.com/c/pay/cs_test_1'') ''customer-'') \<and>
   createSubscription test_system
     \<lparr>body_email = [], body_pcnNumber = [], body_vehicleRegistration = [],
      body_penaltyAmount = 90\<rparr> fresh_world =
     (Status400 ValidationError, fresh_world)"
  by code_simp



text \<open>
  Claim C4: in a run of either route, no charge-scheme call (product, price,
  subscription or schedule creation) is issued while the identifier of a processor
  customer created in that run is not yet stored: the successful attachment of the
  returned identifier comes first.
\<close>

theorem C4_persist_before_charge:
  "persisted_before_charge None (new_events w (snd (post r sys body w)))"
proof -
  obtain resp w' where run: "post r sys body w = (resp, w')"
    by fastforce
  have "persisted_before_charge None (new_events w w')"
  proof (cases r)
    case CreateSubscription
    with run have "createSubscription sys body w = (resp, w')"
      by (simp add: post_def)
    then show ?thesis
    proof (cases rule: createSubscriptionE)
      case invalid
      then show ?thesis by (simp add: new_events_def)
    next
      case (valid r)
      from valid(4) show ?thesis
        unfolding createSubscription_afterLookup_def
        by (auto elim!: stepE simp: new_events_def dest: attach_result)
    qed
  next
    case CreateCheckoutSession
    with run have "createCheckoutSession sys body w = (resp, w')"
      by (simp add: post_def)
    then show ?thesis
    proof (cases rule: createCheckoutSessionE)
      case (1 r)
      from 1(1) show ?thesis
        unfolding createCheckoutSession_afterLookup_def Let_def
        by (auto elim!: stepE simp: new_events_def dest: attach_result split: option.splits)
    qed
  qed
  with run show ?thesis by simp
qed

theorem C4_persist_before_charge_witness:
  "customer_calls (new_events fresh_world
      (snd (post CreateSubscription test_system (test_body 90) fresh_world))) =
     [CustomersCreate ''a@x.com''
        [(''pcnNumber'', ''PCN1''), (''vehicleRegistration'', ''AB12CDE'')]] \<and>
   price_amounts (new_events fresh_world
      (snd (post CreateSubscription test_system (test_body 90) fresh_world))) = [3000] \<and>
   persisted_before_charge None (new_events fresh_world
      (snd (post CreateSubscription test_system (test_body 90) fresh_world)))"
proof -
  have "customer_calls (new_events fresh_world
      (snd (post CreateSubscription test_system (test_body 90) fresh_world))) =
     [CustomersCreate ''a@x.com''
        [(''pcnNumber'', ''PCN1''), (''vehicleRegistration'', ''AB12CDE'')]]"
    by code_simp
  moreover have "price_amounts (new_events fresh_world
      (snd (post CreateSubscription test_system (test_body 90) fresh_world))) = [3000]"
    by code_simp
  ultimately show ?thesis
    using C4_persist_before_charge [of fresh_world CreateSubscription test_system "test_body 90"]
    by simp
qed

text \<open>
  Claim C5 at the failing input. On a fresh Registry the checkout-session route creates
  the schedule, whose subscription is \<open>sub_1\<close>, and answers with the redirect session;
  its only attachment carries no subscription identifier, and the Registry row ends with
  none. The subscription route, on the same input, stores the identifier of the
  subscription it created.
\<close>

theorem C5_checkout_stores_no_subscription:
  "fst (createCheckoutSession test_system (test_body 90) fresh_world) =
     Json (CheckoutResponse ''cs_test_1''
       (Some ''https://checkout.stripe.com/c/pay/cs_test_1'') ''customer-'') \<and>
   attached_subscriptions (new_events fresh_world
     (snd (createCheckoutSession test_system (test_body 90) fresh_world))) = [None] \<and>
   map stripeSubscriptionId
     (customers (snd (createCheckoutSession test_system (test_body 90) fresh_world))) = [None] \<and>
   fst (createSubscription test_system (test_body 90) fresh_world) =
     Json (SubscriptionResponse (Some ''pi_1_secret'') ''sub_1'' ''customer-'') \<and>
   attached_subscriptions (new_events fresh_world
     (snd (createSubscription test_system (test_body 90) fresh_world))) = [None, Some ''sub_1''] \<and>
   map stripeSubscriptionId
     (customers (snd (createSubscription test_system (test_body 90) fresh_world))) =
     [Some ''sub_1'']"
  by code_simp

text \<open>
  Claim C6, as the specification states it, has the route recover from the
  \<open>ConflictError\<close> of a racing create by fetching again. The routes have no such
  recovery. Here a first request has looked the email up in the empty Registry and found
  nothing; before it goes on, a second request for the same email runs to its end; the
  first request then resumes with the answer it got, its create is refused, and the
  refusal is what the caller receives, with status 400.
\<close>

theorem C6_conflict_counterexample:
  "fst (getCustomerByEmail ''a@x.com'' fresh_world) = Inr None \<and>
   fst (respond (createSubscription_afterLookup test_system ''a@x.com'' ''PCN1'' ''AB12CDE'' None)
     (snd (createSubscription test_system (test_body 90) fresh_world))) =
     Status400 ConflictError \<and>
   fst (respond (createCheckoutSession_afterLookup test_system (test_body 90) None)
     (snd (createCheckoutSession test_system (test_body 90) fresh_world))) =
     Status400 ConflictError"
  by code_simp

text \<open>
  Claim C6, amended: starting from a Registry with at most one row for an email, any
  positive number of runs of a route, one after the other, on requests for that email
  which the route accepts leaves exactly one row for it. A create that is refused
  because another request created the row in between is not recovered: the route
  answers the caller with status 400 and the \<open>ConflictError\<close>, and leaves the Registry
  as it is.
\<close>

theorem C6_one_record_per_email:
  "(records_for e (customers w) \<le> 1 \<and> bodies \<noteq> [] \<and>
    (\<forall>b\<in>set bodies. body_email b = e \<and> accepted r b) \<longrightarrow>
      records_for e (customers (run_requests r sys bodies w)) = 1) \<and>
   (lookup e (customers w) \<noteq> None \<longrightarrow>
      respond (createSubscription_afterLookup sys e pcn vreg None) w =
        (Status400 ConflictError, w) \<and>
      respond (createCheckoutSession_afterLookup sys (body\<lparr>body_email := e\<rparr>) None) w =
        (Status400 ConflictError, w))"
proof (intro conjI impI)
  assume "records_for e (customers w) \<le> 1 \<and> bodies \<noteq> [] \<and>
    (\<forall>b\<in>set bodies. body_email b = e \<and> accepted r b)"
  then show "records_for e (customers (run_requests r sys bodies w)) = 1"
    using run_requests_records_for [of bodies e r w sys] by blast
next
  assume "lookup e (customers w) \<noteq> None"
  then show "respond (createSubscription_afterLookup sys e pcn vreg None) w =
      (Status400 ConflictError, w)"
    by (rule conflict_surfaces_subscription)
next
  assume "lookup e (customers w) \<noteq> None"
  then show "respond (createCheckoutSession_afterLookup sys (body\<lparr>body_email := e\<rparr>) None) w =
      (Status400 ConflictError, w)"
    using conflict_surfaces_checkout [of "body\<lparr>body_email := e\<rparr>" w sys] by simp
qed

theorem C6_one_record_per_email_witness:
  "records_for ''a@x.com'' (customers fresh_world) \<le> 1 \<and>
   [test_body 90, test_body 91, test_body 90] \<noteq> [] \<and>
   list_all (\<lambda>b. body_email b = ''a@x.com'' \<and> accepted CreateCheckoutSession b)
     [test_body 90, test_body 91, test_body 90] \<and>
   records_for ''a@x.com'' (customers (run_requests CreateCheckoutSession test_system
     [test_body 90, test_body 91, test_body 90] fresh_world)) = 1 \<and>
   lookup ''a@x.com'' (customers known_world) \<noteq> None \<and>
   respond (createSubscription_afterLookup test_system ''a@x.com'' ''PCN1'' ''AB12CDE'' None)
     known_world = (Status400 ConflictError, known_world) \<and>
   respond (createCheckoutSession_afterLookup test_system
     ((test_body 90)\<lparr>body_email := ''a@x.com''\<rparr>) None) known_world =
     (Status400 ConflictError, known_world)"
proof -
  have h1: "records_for ''a@x.com'' (customers fresh_world) \<le> 1"
    by code_simp
  have h2: "list_all (\<lambda>b. body_email b = ''a@x.com'' \<and> accepted CreateCheckoutSession b)
     [test_body 90, test_body 91, test_body 90]"
    by code_simp
  have h3: "lookup ''a@x.com'' (customers known_world) \<noteq> None"
    by code_simp
  from h2 have h2': "\<forall>b\<in>set [test_body 90, test_body 91, test_body 90].
      body_email b = ''a@x.com'' \<and> accepted CreateCheckoutSession b"
    by (simp only: list_all_iff)
  show ?thesis
    using C6_one_record_per_email [where e = "''a@x.com''" and w = fresh_world
        and bodies = "[test_body 90, test_body 91, test_body 90]"
        and r = CreateCheckoutSession and sys = test_system]
      C6_one_record_per_email [where e = "''a@x.com''" and w = known_world
        and sys = test_system and pcn = "''PCN1''" and vreg = "''AB12CDE''"
        and body = "test_body 90"]
      h1 h2 h2' h3
    by blast
qed

text \<open>
  Claim C7, as the specification states it, has every object created at the Processor
  carry the PCN number, the vehicle registration and \<open>totalPayments = 3\<close>. The
  product and the price are created without any metadata, and the customer without
  \<open>totalPayments\<close>, in both routes.
\<close>

theorem C7_metadata_counterexample:
  "\<not> list_all (event_carries CreateSubscription)
       (new_events fresh_world
          (snd (post CreateSubscription test_system (test_body 90) fresh_world))) \<and>
   \<not> list_all (event_carries CreateCheckoutSession)
       (new_events fresh_world
          (snd (post CreateCheckoutSession test_system (test_body 90) fresh_world))) \<and>
   \<not> event_carries CreateCheckoutSession
       (StripeCall (ProductsCreate ''PCN Payment Plan - PCN1''
          (''Recurring payment plan for PCN PCN1, Vehicle AB12CDE, Total: '' @ [CHR 0xA3] @ ''90''))
          (Inr (test_object ''prod_1''))) \<and>
   StripeCall (ProductsCreate ''PCN Payment Plan - PCN1''
          (''Recurring payment plan for PCN PCN1, Vehicle AB12CDE, Total: '' @ [CHR 0xA3] @ ''90''))
          (Inr (test_object ''prod_1''))
     \<in> set (new_events fresh_world
          (snd (post CreateCheckoutSession test_system (test_body 90) fresh_world)))"
  by code_simp

text \<open>
  Claim C7, amended: in a run of either route the metadata sent with each object is
  \<^item> for a customer: \<open>pcnNumber\<close> and \<open>vehicleRegistration\<close>;
  \<^item> for a product and for a price: none;
  \<^item> for the subscription of the subscription route: \<open>pcnNumber\<close>,
    \<open>vehicleRegistration\<close> and \<open>totalPayments = '3'\<close>;
  \<^item> for the schedule of the checkout-session route: these three, and \<open>penaltyAmount\<close>
    (\<open>penaltyAmount.toString()\<close>) and \<open>monthlyAmount\<close> (\<open>(penaltyAmount / 3).toFixed(2)\<close>);
  \<^item> for the checkout session: \<open>customerId\<close>, \<open>pcnNumber\<close>, \<open>vehicleRegistration\<close>,
    \<open>penaltyAmount\<close> and \<open>monthlyAmount\<close>.
\<close>

theorem C7_metadata_as_coded:
  "list_all (event_as_coded sys body) (new_events w (snd (post r sys body w)))"
proof -
  obtain resp w' where run: "post r sys body w = (resp, w')"
    by fastforce
  have "list_all (event_as_coded sys body) (new_events w w')"
  proof (cases r)
    case CreateSubscription
    with run have "createSubscription sys body w = (resp, w')"
      by (simp add: post_def)
    then show ?thesis
    proof (cases rule: createSubscriptionE)
      case invalid
      then show ?thesis by (simp add: new_events_def)
    next
      case (valid r)
      from valid(4) show ?thesis
        unfolding createSubscription_afterLookup_def
        by (auto elim!: stepE simp: new_events_def value_if_present_def)
    qed
  next
    case CreateCheckoutSession
    with run have "createCheckoutSession sys body w = (resp, w')"
      by (simp add: post_def)
    then show ?thesis
    proof (cases rule: createCheckoutSessionE)
      case (1 r)
      from 1(1) show ?thesis
        unfolding createCheckoutSession_afterLookup_def Let_def
        by (auto elim!: stepE simp: new_events_def value_if_present_def split: option.splits)
    qed
  qed
  with run show ?thesis by simp
qed

theorem C7_metadata_as_coded_witness:
  "length (new_events fresh_world
     (snd (post CreateCheckoutSession test_system (test_body 90) fresh_world))) = 6 \<and>
   list_all (event_as_coded test_system (test_body 90))
     (new_events fresh_world
        (snd (post CreateCheckoutSession test_system (test_body 90) fresh_world)))"
proof -
  have "length (new_events fresh_world
     (snd (post CreateCheckoutSession test_system (test_body 90) fresh_world))) = 6"
    by code_simp
  then show ?thesis
    using C7_metadata_as_coded [of test_system "test_body 90" fresh_world CreateCheckoutSession]
    by simp
qed

text \<open>
  Claim C8, as the specification states it, has the response carry a redirect URL that
  starts with the configured base URL. The route answers with \<open>session.url\<close>, the URL
  of the hosted page as the Processor returned it; the base URL goes into the
  \<open>success_url\<close> and the \<open>cancel_url\<close> the route sends to the Processor.
\<close>

theorem C8_redirect_counterexample:
  "fst (createCheckoutSession test_system (test_body 90) fresh_world) =
     Json (CheckoutResponse ''cs_test_1''
       (Some ''https://checkout.stripe.com/c/pay/cs_test_1'') ''customer-'') \<and>
   domainURL (env test_system) = ''http://localhost:5000'' \<and>
   \<not> prefix (domainURL (env test_system)) ''https://checkout.stripe.com/c/pay/cs_test_1''"
  by code_simp

text \<open>
  Claim C8, amended: a successful run of the checkout-session route has created exactly
  one checkout session, with a success URL and a cancel URL that start with the
  configured base URL; the response carries the identifier of the session the Processor
  returned, the URL of that session as the Processor returned it (it may be absent, and
  nothing ties it to the base URL), and the identifier of the Registry row of the
  request's email.
\<close>

theorem C8_checkout_response:
  assumes "createCheckoutSession sys body w = (Json b, w')"
  shows "\<exists>su cu session c'.
           session_calls (new_events w w') = [(su, cu, session)] \<and>
           prefix (domainURL (env sys)) su \<and> prefix (domainURL (env sys)) cu \<and>
           sessionId b = obj_id session \<and> url b = obj_url session \<and>
           customerId b = customer_id c' \<and>
           lookup (body_email body) (customers w') = Some c'"
  using assms
proof (cases rule: createCheckoutSessionE)
  case (1 r)
  from 1(2) have "r = Inr b"
    by (cases r) simp_all
  with 1(1) createCheckoutSession_afterLookup_success [of sys body w b w']
  obtain session c' where
    "session_calls (new_events w w') =
       [(domainURL (env sys) @ ''/payment-success?session_id={CHECKOUT_SESSION_ID}'',
         domainURL (env sys) @ ''/'', session)]"
    "b = CheckoutResponse (obj_id session) (obj_url session) (customer_id c')"
    "lookup (body_email body) (customers w') = Some c'"
    by auto
  then show ?thesis
    by (intro exI [of _ "domainURL (env sys) @ ''/payment-success?session_id={CHECKOUT_SESSION_ID}''"]
          exI [of _ "domainURL (env sys) @ ''/''"] exI [of _ session] exI [of _ c']) simp
qed

theorem C8_checkout_response_witness:
  "createCheckoutSession test_system (test_body 90) fresh_world =
     (Json (CheckoutResponse ''cs_test_1''
        (Some ''https://checkout.stripe.com/c/pay/cs_test_1'') ''customer-''),
      snd (createCheckoutSession test_system (test_body 90) fresh_world)) \<and>
   (\<exists>su cu session c'.
      session_calls (new_events fresh_world
         (snd (createCheckoutSession test_system (test_body 90) fresh_world))) =
        [(su, cu, session)] \<and>
      prefix (domainURL (env test_system)) su \<and> prefix (domainURL (env test_system)) cu \<and>
      ''cs_test_1'' = obj_id session \<and>
      Some ''https://checkout.stripe.com/c/pay/cs_test_1'' = obj_url session \<and>
      ''customer-'' = customer_id c' \<and>
      lookup (body_email (test_body 90))
        (customers (snd (createCheckoutSession test_system (test_body 90) fresh_world))) = Some c')"
proof -
  have "fst (createCheckoutSession test_system (test_body 90) fresh_world) =
     Json (CheckoutResponse ''cs_test_1''
       (Some ''https://checkout.stripe.com/c/pay/cs_test_1'') ''customer-'')"
    by code_simp
  then have run: "createCheckoutSession test_system (test_body 90) fresh_world =
     (Json (CheckoutResponse ''cs_test_1''
        (Some ''https://checkout.stripe.com/c/pay/cs_test_1'') ''customer-''),
      snd (createCheckoutSession test_system (test_body 90) fresh_world))"
    by (simp add: prod_eq_iff)
  show ?thesis
    using C8_checkout_response [OF run] run by simp
qed

text \<open>
  Claim C9: the subscription route creates its price with the constant unit amount 3000
  and never reads \<open>penaltyAmount\<close>, but the total billed is not always three times that
  amount. The route asks for the subscription to be cancelled 90 days after the request
  (\<open>// Set subscription to cancel after 3 payments\<close>, \<open>totalPayments: '3'\<close>). For a request
  at 00:00:00 UTC on 1 February 2026 that is 00:00:00 UTC on 2 May 2026: February, March
  and April have 89 days, so the billing dates of 1 February, 1 March, 1 April and
  1 May all lie before the cancellation, and a fourth payment of the monthly price
  falls due.
\<close>

theorem C9_cancel_at_after_fourth_billing_date:
  "fst (createSubscription (test_system\<lparr>Date_now := 1000 * utc_midnight 2026 2 1\<rparr>)
          (test_body 250) fresh_world) =
     Json (SubscriptionResponse (Some ''pi_1_secret'') ''sub_1'' ''customer-'') \<and>
   price_amounts (new_events fresh_world
     (snd (createSubscription (test_system\<lparr>Date_now := 1000 * utc_midnight 2026 2 1\<rparr>)
            (test_body 250) fresh_world))) = [3000] \<and>
   subscription_cancel_ats (new_events fresh_world
     (snd (createSubscription (test_system\<lparr>Date_now := 1000 * utc_midnight 2026 2 1\<rparr>)
            (test_body 250) fresh_world))) = [utc_midnight 2026 5 2] \<and>
   1000 * utc_midnight 2026 2 1 = 1769904000000 \<and>
   utc_midnight 2026 5 2 = 1777680000 \<and>
   monthly_billing_dates 2026 2 1 12 ! 3 = utc_midnight 2026 5 1 \<and>
   utc_midnight 2026 5 1 = 1777593600 \<and>
   filter (\<lambda>t. t < utc_midnight 2026 5 2) (monthly_billing_dates 2026 2 1 12) =
     [utc_midnight 2026 2 1, utc_midnight 2026 3 1, utc_midnight 2026 4 1, utc_midnight 2026 5 1] \<and>
   length (filter (\<lambda>t. t < utc_midnight 2026 5 2) (monthly_billing_dates 2026 2 1 12)) = 4"
  by code_simp

text \<open>
  Claim C10: when the subscription route is called for an email that already has a
  Registry row (the Registry's identifiers being distinct), the row's PCN number and
  vehicle registration stay as stored; the subscription created carries the stored
  values in its metadata, while the product created is named and described with the
  values of the current request.
\<close>

theorem C10_stored_fields_kept:
  assumes "lookup (body_email body) (customers w) = Some c"
    and "distinct (map customer_id (customers w))"
  shows "(\<exists>c'. lookup (body_email body) (customers (snd (createSubscription sys body w))) = Some c' \<and>
               pcnNumber c' = pcnNumber c \<and> vehicleRegistration c' = vehicleRegistration c) \<and>
         list_all (\<lambda>m. m = [(''pcnNumber'', pcnNumber c),
                             (''vehicleRegistration'', vehicleRegistration c),
                             (''totalPayments'', ''3'')])
           (subscription_metadata (new_events w (snd (createSubscription sys body w)))) \<and>
         list_all (\<lambda>p. p = (''PCN Payment Plan - '' @ body_pcnNumber body,
                             ''Recurring payment plan for PCN '' @ body_pcnNumber body @
                             '', Vehicle '' @ body_vehicleRegistration body))
           (product_calls (new_events w (snd (createSubscription sys body w)))) \<and>
         (case fst (createSubscription sys body w) of
            Json b \<Rightarrow>
              subscription_metadata (new_events w (snd (createSubscription sys body w))) =
                [[(''pcnNumber'', pcnNumber c), (''vehicleRegistration'', vehicleRegistration c),
                  (''totalPayments'', ''3'')]] \<and>
              product_calls (new_events w (snd (createSubscription sys body w))) =
                [(''PCN Payment Plan - '' @ body_pcnNumber body,
                  ''Recurring payment plan for PCN '' @ body_pcnNumber body @
                  '', Vehicle '' @ body_vehicleRegistration body)]
          | Status400 e \<Rightarrow> True)"
proof -
  obtain resp w' where run: "createSubscription sys body w = (resp, w')"
    by fastforce
  have grows: "registry_grows (customers w) (customers w')"
    using createSubscription_grows [of w sys body] run by simp
  from registry_grows_lookup [OF grows assms(1)]
  have kept: "\<exists>c'. lookup (body_email body) (customers w') = Some c' \<and>
      pcnNumber c' = pcnNumber c \<and> vehicleRegistration c' = vehicleRegistration c"
    by (auto simp: keeps_identity_def)
  note calls = createSubscription_metadata [OF assms run]
  from calls have "list_all (\<lambda>m. m = [(''pcnNumber'', pcnNumber c),
                             (''vehicleRegistration'', vehicleRegistration c),
                             (''totalPayments'', ''3'')])
           (subscription_metadata (new_events w w'))"
    by auto
  moreover from calls have "list_all (\<lambda>p. p = (''PCN Payment Plan - '' @ body_pcnNumber body,
                             ''Recurring payment plan for PCN '' @ body_pcnNumber body @
                             '', Vehicle '' @ body_vehicleRegistration body))
           (product_calls (new_events w w'))"
    by auto
  moreover from calls have "case resp of
            Json b \<Rightarrow>
              subscription_metadata (new_events w w') =
                [[(''pcnNumber'', pcnNumber c), (''vehicleRegistration'', vehicleRegistration c),
                  (''totalPayments'', ''3'')]] \<and>
              product_calls (new_events w w') =
                [(''PCN Payment Plan - '' @ body_pcnNumber body,
                  ''Recurring payment plan for PCN '' @ body_pcnNumber body @
                  '', Vehicle '' @ body_vehicleRegistration body)]
          | Status400 e \<Rightarrow> True"
    by (auto split: response.splits)
  ultimately show ?thesis
    using kept run by (simp split: response.splits)
qed

theorem C10_stored_fields_kept_witness:
  "lookup (body_email (test_body 90)) (customers known_world) = Some known_customer \<and>
   distinct (map customer_id (customers known_world)) \<and>
   pcnNumber known_customer = ''PCN0'' \<and> body_pcnNumber (test_body 90) = ''PCN1'' \<and>
   (\<exists>c'. lookup (body_email (test_body 90))
           (customers (snd (createSubscription test_system (test_body 90) known_world))) = Some c' \<and>
         pcnNumber c' = ''PCN0'' \<and> vehicleRegistration c' = ''XY99ZZZ'') \<and>
   subscription_metadata (new_events known_world
       (snd (createSubscription test_system (test_body 90) known_world))) =
     [[(''pcnNumber'', ''PCN0''), (''vehicleRegistration'', ''XY99ZZZ''),
       (''totalPayments'', ''3'')]] \<and>
   product_calls (new_events known_world
       (snd (createSubscription test_system (test_body 90) known_world))) =
     [(''PCN Payment Plan - PCN1'', ''Recurring payment plan for PCN PCN1, Vehicle AB12CDE'')]"
proof -
  have h1: "lookup (body_email (test_body 90)) (customers known_world) = Some known_customer"
    by code_simp
  have h2: "distinct (map customer_id (customers known_world))"
    by code_simp
  have ok: "fst (createSubscription test_system (test_body 90) known_world) =
      Json (SubscriptionResponse (Some ''pi_1_secret'') ''sub_1'' ''customer-'')"
    by code_simp
  have fields: "pcnNumber known_customer = ''PCN0''" "vehicleRegistration known_customer = ''XY99ZZZ''"
    "body_pcnNumber (test_body 90) = ''PCN1''" "body_vehicleRegistration (test_body 90) = ''AB12CDE''"
    by (simp_all add: known_customer_def test_body_def)
  show ?thesis
    using C10_stored_fields_kept [OF h1 h2, of test_system] h1 h2 ok fields
    by simp
qed


end
